theory Spec2Isabelle
  imports Main "HOL-Library.Multiset"
begin

section \<open>Sensitive-data approval workflow: shared enumerations\<close>

text \<open>
  Modelled from the spec: the enumerations of levels and statuses. They are declared by
  generated protobuf code (packages \<open>storepb\<close> and \<open>v1\<close>) that is not part of the
  sources. Their constructors are the values the sources name, and \<open>CANCELLED\<close> and
  \<open>SKIPPED\<close>, which only the specification names.
\<close>

datatype SensitiveDataLevel =
  SENSITIVE_DATA_LEVEL_UNSPECIFIED
  | SENSITIVE_DATA_LEVEL_LOW
  | SENSITIVE_DATA_LEVEL_MEDIUM
  | SENSITIVE_DATA_LEVEL_HIGH

text \<open>
  Modelled from the spec: the numeric value of a level, which the generated enum declares
  and the sources compare with \<open>>\<close>. The specification fixes the ordinal
  \<open>UNSPECIFIED < LOW < MEDIUM < HIGH\<close>.
\<close>

fun level_ord :: "SensitiveDataLevel \<Rightarrow> int" where
  "level_ord SENSITIVE_DATA_LEVEL_UNSPECIFIED = 0"
| "level_ord SENSITIVE_DATA_LEVEL_LOW = 1"
| "level_ord SENSITIVE_DATA_LEVEL_MEDIUM = 2"
| "level_ord SENSITIVE_DATA_LEVEL_HIGH = 3"

datatype ApprovalFlowExecutionStatus =
  APPROVAL_FLOW_EXECUTION_STATUS_UNSPECIFIED
  | EXECUTION_PENDING
  | EXECUTION_IN_PROGRESS
  | EXECUTION_APPROVED
  | EXECUTION_REJECTED
  | EXECUTION_CANCELLED

datatype ApprovalNodeExecutionStatus =
  APPROVAL_NODE_EXECUTION_STATUS_UNSPECIFIED
  | APPROVAL_NODE_EXECUTION_STATUS_PENDING
  | APPROVAL_NODE_EXECUTION_STATUS_IN_PROGRESS
  | APPROVAL_NODE_EXECUTION_STATUS_APPROVED
  | APPROVAL_NODE_EXECUTION_STATUS_REJECTED
  | APPROVAL_NODE_EXECUTION_STATUS_SKIPPED

datatype ApprovalStatus =
  APPROVAL_STATUS_UNSPECIFIED
  | APPROVED
  | REJECTED

section \<open>Notification store (\<open>Store.UpdateNotification\<close>)\<close>

record Notification =
  n_ID :: int
  n_Type :: string
  n_Title :: string
  n_Content :: string
  n_RecipientID :: int
  n_ApprovalFlowExecutionID :: int
  n_ApprovalNodeExecutionID :: int
  n_ApprovalID :: int
  n_Read :: bool
  n_CreatorID :: int
  n_UpdaterID :: int
  n_CreateTime :: int
  n_UpdateTime :: int

text \<open>
  The fields of the update request that \<open>UpdateNotification\<close> reads. The source tests
  \<open>update.Read != nil\<close> and writes \<open>*update.Read\<close>, so the flag is optional.
\<close>

record NotificationUpdate =
  u_ID :: int
  u_Read :: "bool option"
  u_UpdaterID :: int

datatype notification_error =
  NotificationIDRequired
  | NoFieldsToUpdate
  | NotificationNotFound

text \<open>The \<open>notification\<close> table: one element per row.\<close>

type_synonym notification_table = "Notification list"

definition getNotification :: "notification_table \<Rightarrow> int \<Rightarrow> notification_error + Notification" where
  "getNotification tbl i =
     (if i \<le> 0 then Inl NotificationIDRequired
      else case find (\<lambda>n. n_ID n = i) tbl of
             None \<Rightarrow> Inl NotificationNotFound
           | Some n \<Rightarrow> Inr n)"

text \<open>
  \<open>UPDATE notification SET read = ?, updater_id = ? WHERE id = ?\<close>, each assignment
  present only when the request carries the field.
\<close>

definition update_notification_row :: "NotificationUpdate \<Rightarrow> Notification \<Rightarrow> Notification" where
  "update_notification_row u n =
     (let n1 = (case u_Read u of None \<Rightarrow> n | Some b \<Rightarrow> n\<lparr>n_Read := b\<rparr>)
      in if u_UpdaterID u > 0 then n1\<lparr>n_UpdaterID := u_UpdaterID u\<rparr> else n1)"

definition UpdateNotification ::
  "notification_table \<Rightarrow> NotificationUpdate \<Rightarrow> (notification_error + Notification) \<times> notification_table" where
  "UpdateNotification tbl u =
     (if u_ID u \<le> 0 then (Inl NotificationIDRequired, tbl)
      else if u_Read u = None \<and> \<not> u_UpdaterID u > 0 then (Inl NoFieldsToUpdate, tbl)
      else if filter (\<lambda>n. n_ID n = u_ID u) tbl = [] then (Inl NotificationNotFound, tbl)
      else
        let tbl' = map (\<lambda>n. if n_ID n = u_ID u then update_notification_row u n else n) tbl
        in (getNotification tbl' (u_ID u), tbl'))"

section \<open>Rule matcher\<close>

subsection \<open>\<open>SensitiveDataService.isRuleMatch\<close>\<close>

text \<open>The fields of \<open>v1.SensitiveDataRule\<close> that the evaluation service reads.\<close>

record SensitiveDataRuleV1 =
  r_Name :: string
  r_Table :: string
  r_FieldPattern :: string
  r_Level :: SensitiveDataLevel

text \<open>\<open>strings.Split(s, sep)\<close> for a one-character separator: never an empty list.\<close>

fun split_on :: "char \<Rightarrow> string \<Rightarrow> string list" where
  "split_on c [] = [[]]"
| "split_on c (x # xs) =
     (if x = c then [] # split_on c xs
      else (case split_on c xs of
              [] \<Rightarrow> [[x]]
            | w # ws \<Rightarrow> (x # w) # ws))"

text \<open>\<open>strings.ReplaceAll(p, "*", ".*")\<close>.\<close>

definition replace_stars :: "string \<Rightarrow> string" where
  "replace_stars p = concat (map (\<lambda>c. if c = CHR ''*'' then ''.*'' else [c]) p)"

text \<open>
  \<open>regexp.MatchString\<close> belongs to the Go library; it is the parameter \<open>rx\<close>
  (pattern, then subject), whose result is \<open>False\<close> when the pattern does not compile,
  as the source discards the error.
\<close>

definition isRuleMatch ::
  "(string \<Rightarrow> string \<Rightarrow> bool) \<Rightarrow> SensitiveDataRuleV1 \<Rightarrow> string \<Rightarrow> string \<Rightarrow> bool" where
  "isRuleMatch rx rule table field =
     (if r_Table rule \<noteq> [] \<and> last (split_on CHR ''/'' (r_Table rule)) \<noteq> table then False
      else if r_FieldPattern rule \<noteq> []
              \<and> \<not> rx (''^'' @ replace_stars (r_FieldPattern rule) @ ''$'') field then False
      else True)"

subsection \<open>\<open>detectSensitiveDataChanges\<close> of the advisor\<close>

record SensitiveDataFieldPattern =
  fp_FieldName :: string
  fp_Regex :: string

record SensitiveDataRule =
  sr_ID :: int
  sr_TableName :: string
  sr_Fields :: "SensitiveDataFieldPattern list"
  sr_Level :: SensitiveDataLevel

record SensitiveDataChange =
  c_TableName :: string
  c_FieldName :: string
  c_SensitivityLevel :: SensitiveDataLevel
  c_RuleID :: int
  c_StartLine :: int
  c_EndLine :: int

text \<open>
  The loop over \<open>rule.Fields\<close>: the first pattern whose name equals the column, or whose
  regular expression compiles and matches it, settles the rule. \<open>compile\<close> stands for
  \<open>regexp.Compile\<close> followed by \<open>MatchString\<close>; \<open>None\<close> is a pattern that does not compile.
\<close>

fun fields_matched ::
  "(string \<Rightarrow> (string \<Rightarrow> bool) option) \<Rightarrow> SensitiveDataFieldPattern list \<Rightarrow> string \<Rightarrow> bool" where
  "fields_matched compile [] column = False"
| "fields_matched compile (f # fs) column =
     (if fp_FieldName f = column then True
      else if fp_Regex f \<noteq> [] then
        (case compile (fp_Regex f) of
           None \<Rightarrow> fields_matched compile fs column
         | Some m \<Rightarrow> if m column then True else fields_matched compile fs column)
      else fields_matched compile fs column)"

text \<open>The loop over the rules for one table and column: at most one change, from the first rule that matches.\<close>

fun first_matching_rule ::
  "(string \<Rightarrow> (string \<Rightarrow> bool) option) \<Rightarrow> SensitiveDataRule list \<Rightarrow> string \<Rightarrow> string
     \<Rightarrow> SensitiveDataChange list" where
  "first_matching_rule compile [] table column = []"
| "first_matching_rule compile (rule # rules) table column =
     (if sr_TableName rule \<noteq> [] \<and> sr_TableName rule \<noteq> table
        then first_matching_rule compile rules table column
      else if fields_matched compile (sr_Fields rule) column
        then [\<lparr>c_TableName = table, c_FieldName = column, c_SensitivityLevel = sr_Level rule,
               c_RuleID = sr_ID rule, c_StartLine = 1, c_EndLine = 1\<rparr>]
      else first_matching_rule compile rules table column)"

definition detectSensitiveDataChanges ::
  "(string \<Rightarrow> (string \<Rightarrow> bool) option) \<Rightarrow> SensitiveDataRule list \<Rightarrow> string list \<Rightarrow> string list
     \<Rightarrow> SensitiveDataChange list" where
  "detectSensitiveDataChanges compile rules tables columns =
     concat (map (\<lambda>table. concat (map (\<lambda>column. first_matching_rule compile rules table column) columns)) tables)"

section \<open>Flow selection in the evaluation service\<close>

datatype ApprovalType = APPROVAL_TYPE_UNSPECIFIED | APPROVAL_TYPE_ALL | APPROVAL_TYPE_ANY

record ApprovalStep =
  st_Step :: int
  st_Approvers :: "string list"
  st_ApprovalType :: ApprovalType

record ApprovalFlowV1 =
  fl_Name :: string
  fl_Title :: string
  fl_Description :: string
  fl_Level :: SensitiveDataLevel
  fl_Steps :: "ApprovalStep list"

text \<open>
  \<open>getDefaultApprovalFlow\<close>. The title and the description are formatted from the generated
  \<open>level.String()\<close>; the parameter \<open>names\<close> gives, for a level,
  \<open>strings.Title(strings.ToLower(level.String()))\<close> and \<open>strings.ToLower(level.String())\<close>.
\<close>

definition default_steps :: "SensitiveDataLevel \<Rightarrow> (string \<times> ApprovalStep list) option" where
  "default_steps level =
     (case level of
        SENSITIVE_DATA_LEVEL_HIGH \<Rightarrow>
          Some (''high-sensitivity-flow'',
                [\<lparr>st_Step = 1, st_Approvers = [''roles/security-admin''], st_ApprovalType = APPROVAL_TYPE_ALL\<rparr>,
                 \<lparr>st_Step = 2, st_Approvers = [''roles/dba''], st_ApprovalType = APPROVAL_TYPE_ALL\<rparr>])
      | SENSITIVE_DATA_LEVEL_MEDIUM \<Rightarrow>
          Some (''medium-sensitivity-flow'',
                [\<lparr>st_Step = 1, st_Approvers = [''roles/dba''], st_ApprovalType = APPROVAL_TYPE_ALL\<rparr>])
      | SENSITIVE_DATA_LEVEL_LOW \<Rightarrow>
          Some (''low-sensitivity-flow'',
                [\<lparr>st_Step = 1, st_Approvers = [''self''], st_ApprovalType = APPROVAL_TYPE_ALL\<rparr>])
      | SENSITIVE_DATA_LEVEL_UNSPECIFIED \<Rightarrow> None)"

definition getDefaultApprovalFlow ::
  "(SensitiveDataLevel \<Rightarrow> string \<times> string) \<Rightarrow> string \<Rightarrow> SensitiveDataLevel \<Rightarrow> ApprovalFlowV1 option" where
  "getDefaultApprovalFlow names parent level =
     (case default_steps level of
        None \<Rightarrow> None
      | Some (flowName, steps) \<Rightarrow>
          Some \<lparr>fl_Name = parent @ ''/approvalFlows/'' @ flowName,
                fl_Title = fst (names level) @ '' Approval Flow'',
                fl_Description = ''Default approval flow for '' @ snd (names level) @ '' sensitivity data'',
                fl_Level = level,
                fl_Steps = steps\<rparr>)"

text \<open>
  Step 3 of \<open>EvaluateSensitiveDataChange\<close>: the three nested loops over tables, fields and
  rules, collecting every matching rule and the highest level.
\<close>

definition match_step ::
  "(string \<Rightarrow> string \<Rightarrow> bool) \<Rightarrow> string \<Rightarrow> string
     \<Rightarrow> SensitiveDataRuleV1 list \<times> SensitiveDataLevel \<Rightarrow> SensitiveDataRuleV1
     \<Rightarrow> SensitiveDataRuleV1 list \<times> SensitiveDataLevel" where
  "match_step rx table field acc rule =
     (if isRuleMatch rx rule table field
      then (fst acc @ [rule],
            if level_ord (r_Level rule) > level_ord (snd acc) then r_Level rule else snd acc)
      else acc)"

definition match_rules ::
  "(string \<Rightarrow> string \<Rightarrow> bool) \<Rightarrow> SensitiveDataRuleV1 list \<Rightarrow> string list \<Rightarrow> string list
     \<Rightarrow> SensitiveDataRuleV1 list \<times> SensitiveDataLevel" where
  "match_rules rx rules tables fieldNames =
     foldl (\<lambda>acc table.
        foldl (\<lambda>acc field. foldl (match_step rx table field) acc rules) acc fieldNames)
       ([], SENSITIVE_DATA_LEVEL_UNSPECIFIED) tables"

text \<open>Step 4: the flow for the highest level, from the flows the store lists for the project.\<close>

definition requiredApprovalFlow ::
  "(SensitiveDataLevel \<Rightarrow> string \<times> string) \<Rightarrow> string \<Rightarrow> ApprovalFlowV1 list \<Rightarrow> SensitiveDataLevel
     \<Rightarrow> ApprovalFlowV1 option" where
  "requiredApprovalFlow names parent approvalFlows highestLevel =
     (if highestLevel \<noteq> SENSITIVE_DATA_LEVEL_UNSPECIFIED then
        (case find (\<lambda>flow. fl_Level flow = highestLevel) approvalFlows of
           Some flow \<Rightarrow> Some flow
         | None \<Rightarrow> getDefaultApprovalFlow names parent highestLevel)
      else None)"

record EvaluateSensitiveDataChangeResponse =
  AffectsSensitiveData :: bool
  HighestSensitiveLevel :: SensitiveDataLevel
  MatchingRules :: "SensitiveDataRuleV1 list"
  RequiredApprovalFlow :: "ApprovalFlowV1 option"

text \<open>
  \<open>EvaluateSensitiveDataChange\<close> from step 3 on: the tables and fields extracted from the
  statement, and the rules and flows listed by the store, are its inputs.
\<close>

definition EvaluateSensitiveDataChange ::
  "(string \<Rightarrow> string \<Rightarrow> bool) \<Rightarrow> (SensitiveDataLevel \<Rightarrow> string \<times> string) \<Rightarrow> string
     \<Rightarrow> SensitiveDataRuleV1 list \<Rightarrow> ApprovalFlowV1 list \<Rightarrow> string list \<Rightarrow> string list
     \<Rightarrow> EvaluateSensitiveDataChangeResponse" where
  "EvaluateSensitiveDataChange rx names parent rules approvalFlows tables fieldNames =
     (let (matchingRules, highestLevel) = match_rules rx rules tables fieldNames
      in \<lparr>AffectsSensitiveData = (length matchingRules > 0),
          HighestSensitiveLevel = highestLevel,
          MatchingRules = matchingRules,
          RequiredApprovalFlow = requiredApprovalFlow names parent approvalFlows highestLevel\<rparr>)"

section \<open>Approval store (\<open>backend/store/approval_flow.go\<close>)\<close>

subsection \<open>Tables\<close>

text \<open>The row of \<open>approval_flow\<close>; the nodes of a flow are the rows of \<open>approval_node\<close>.\<close>

record ApprovalFlow =
  af_ID :: int
  af_Title :: string
  af_Description :: string
  af_SensitivityLevel :: SensitiveDataLevel
  af_Enabled :: bool
  af_CreatorID :: int
  af_UpdaterID :: int
  af_CreateTime :: int
  af_UpdateTime :: int

datatype ApproverType = APPROVER_TYPE_UNSPECIFIED | USER | GROUP | ROLE | SELF

text \<open>The row of \<open>approval_node\<close>: \<open>approver_ids\<close> is the comma-separated column.\<close>

record approval_node_row =
  an_id :: int
  an_flow_id :: int
  an_title :: string
  an_description :: string
  an_approver_type :: ApproverType
  an_approver_ids :: string
  an_required_approvals :: int
  an_creator_id :: int
  an_updater_id :: int
  an_create_time :: int
  an_update_time :: int

record ApprovalNode =
  an_ID :: int
  an_FlowID :: int
  an_Title :: string
  an_Description :: string
  an_ApproverType :: ApproverType
  an_ApproverIDs :: "string list"
  an_RequiredApprovals :: int
  an_CreatorID :: int
  an_UpdaterID :: int
  an_CreateTime :: int
  an_UpdateTime :: int

record ApprovalFlowExecution =
  e_ID :: int
  e_FlowID :: int
  e_IssueID :: int
  e_SensitivityLevel :: SensitiveDataLevel
  e_Status :: ApprovalFlowExecutionStatus
  e_CreatorID :: int
  e_UpdaterID :: int
  e_CreateTime :: int
  e_UpdateTime :: int

record ApprovalNodeExecution =
  ne_ID :: int
  ne_ExecutionID :: int
  ne_NodeID :: int
  ne_Status :: ApprovalNodeExecutionStatus
  ne_CreatorID :: int
  ne_UpdaterID :: int
  ne_CreateTime :: int
  ne_UpdateTime :: int

record Approval =
  a_ID :: int
  a_NodeExecutionID :: int
  a_UserID :: int
  a_Status :: ApprovalStatus
  a_Comment :: string
  a_CreateTime :: int

record Issue =
  i_ID :: int
  i_CreatorID :: int

text \<open>
  The database: one list of rows per table, in insertion order, and \<open>now\<close>, the time the
  database stamps on a new row. Identifiers and counters are \<open>int32\<close> in the source and
  unbounded here: no table of this development comes near \<open>2^31\<close> rows.
\<close>

record DB =
  flows :: "ApprovalFlow list"
  nodes :: "approval_node_row list"
  executions :: "ApprovalFlowExecution list"
  node_executions :: "ApprovalNodeExecution list"
  approvals :: "Approval list"
  issues :: "Issue list"
  sensitive_data_rules :: "SensitiveDataRule list"
  now :: int

text \<open>
  The store functions open a transaction \<open>tx\<close> and, while it is open, also query through
  the pool handle \<open>s.db\<close>. What a pool query sees of the rows the open transaction has
  written is decided by the database, not by the sources: \<open>ReadCommitted\<close> is a pool that
  sees the committed rows only, \<open>ReadUncommitted\<close> one that sees the transaction's rows too.
\<close>

datatype isolation = ReadCommitted | ReadUncommitted

definition pool_view :: "isolation \<Rightarrow> DB \<Rightarrow> DB \<Rightarrow> DB" where
  "pool_view vis committed tx = (case vis of ReadCommitted \<Rightarrow> committed | ReadUncommitted \<Rightarrow> tx)"

text \<open>\<open>LastInsertId\<close>: the identifier the database gives a new row, above every one in the table.\<close>

fun max_id :: "int list \<Rightarrow> int" where
  "max_id [] = 0"
| "max_id (x # xs) = max x (max_id xs)"

definition next_id :: "int list \<Rightarrow> int" where
  "next_id ids = max_id ids + 1"

datatype store_error =
  FlowIDRequired
  | IssueIDRequired
  | SensitivityLevelRequired
  | StatusRequired
  | ApprovalFlowNotFound
  | RetrieveNewExecutionFailed
  | InvalidExecutionID
  | ExecutionNotFound
  | NodeExecutionIDRequired
  | UserIDRequired
  | NodeExecutionNotFound
  | GetNewApprovalFailed
  | GetRequiredApprovalsFailed
  | GetNextNodeExecutionFailed
  | InvalidApprovalFlowID

subsection \<open>Reads\<close>

definition to_ApprovalNode :: "approval_node_row \<Rightarrow> ApprovalNode" where
  "to_ApprovalNode r =
     \<lparr>an_ID = an_id r, an_FlowID = an_flow_id r, an_Title = an_title r,
      an_Description = an_description r, an_ApproverType = an_approver_type r,
      an_ApproverIDs = (if an_approver_ids r \<noteq> [] then split_on CHR '','' (an_approver_ids r) else []),
      an_RequiredApprovals = an_required_approvals r, an_CreatorID = an_creator_id r,
      an_UpdaterID = an_updater_id r, an_CreateTime = an_create_time r,
      an_UpdateTime = an_update_time r\<rparr>"

text \<open>\<open>SELECT ... FROM approval_node WHERE flow_id = ? ORDER BY id\<close>.\<close>

definition getApprovalNodes :: "DB \<Rightarrow> int \<Rightarrow> ApprovalNode list" where
  "getApprovalNodes db flowID =
     map to_ApprovalNode (sort_key an_id (filter (\<lambda>r. an_flow_id r = flowID) (nodes db)))"

definition getApprovalFlowWithNodes :: "DB \<Rightarrow> int \<Rightarrow> store_error + (ApprovalFlow \<times> ApprovalNode list)" where
  "getApprovalFlowWithNodes db i =
     (case find (\<lambda>f. af_ID f = i) (flows db) of
        None \<Rightarrow> Inl ApprovalFlowNotFound
      | Some flow \<Rightarrow> Inr (flow, getApprovalNodes db i))"

text \<open>
  \<open>SELECT ... FROM approval WHERE node_execution_id = ? ORDER BY create_time DESC\<close>.
  The query names no second key: here, as in the other queries that order by creation time,
  rows of equal time come in the order of the table, the earlier row first.
\<close>

definition getApprovals :: "DB \<Rightarrow> int \<Rightarrow> Approval list" where
  "getApprovals db nodeExecutionID =
     sort_key (\<lambda>a. - a_CreateTime a)
       (filter (\<lambda>a. a_NodeExecutionID a = nodeExecutionID) (approvals db))"

definition getApprovalNodeExecution :: "DB \<Rightarrow> int \<Rightarrow> store_error + ApprovalNodeExecution" where
  "getApprovalNodeExecution db i =
     (case find (\<lambda>n. ne_ID n = i) (node_executions db) of
        None \<Rightarrow> Inl NodeExecutionNotFound
      | Some n \<Rightarrow> Inr n)"

text \<open>\<open>SELECT ... FROM approval_node_execution WHERE execution_id = ? ORDER BY id\<close>, each row with its approvals.\<close>

definition getApprovalNodeExecutions :: "DB \<Rightarrow> int \<Rightarrow> (ApprovalNodeExecution \<times> Approval list) list" where
  "getApprovalNodeExecutions db executionID =
     map (\<lambda>n. (n, getApprovals db (ne_ID n)))
       (sort_key ne_ID (filter (\<lambda>n. ne_ExecutionID n = executionID) (node_executions db)))"

definition getApprovalFlowExecutionWithNodeExecutions ::
  "DB \<Rightarrow> int \<Rightarrow> store_error + (ApprovalFlowExecution \<times> (ApprovalNodeExecution \<times> Approval list) list)" where
  "getApprovalFlowExecutionWithNodeExecutions db i =
     (case find (\<lambda>e. e_ID e = i) (executions db) of
        None \<Rightarrow> Inl ExecutionNotFound
      | Some e \<Rightarrow> Inr (e, getApprovalNodeExecutions db i))"

record ListApprovalFlowsFilter =
  lf_SensitivityLevel :: SensitiveDataLevel
  lf_Enabled :: "bool option"

text \<open>\<open>ListApprovalFlows\<close>: the optional conditions joined by \<open>AND\<close>, newest first.\<close>

definition ListApprovalFlows :: "DB \<Rightarrow> ListApprovalFlowsFilter option \<Rightarrow> (ApprovalFlow \<times> ApprovalNode list) list" where
  "ListApprovalFlows db flt =
     map (\<lambda>f. (f, getApprovalNodes db (af_ID f)))
       (sort_key (\<lambda>f. - af_CreateTime f)
          (filter (\<lambda>f. case flt of
                          None \<Rightarrow> True
                        | Some q \<Rightarrow>
                            (if lf_SensitivityLevel q \<noteq> SENSITIVE_DATA_LEVEL_UNSPECIFIED
                             then af_SensitivityLevel f = lf_SensitivityLevel q else True)
                            \<and> (case lf_Enabled q of None \<Rightarrow> True | Some b \<Rightarrow> af_Enabled f = b))
             (flows db)))"

record ListApprovalFlowExecutionsFilter =
  le_FlowID :: int
  le_IssueID :: int
  le_SensitivityLevel :: SensitiveDataLevel
  le_Status :: ApprovalFlowExecutionStatus

definition ListApprovalFlowExecutions ::
  "DB \<Rightarrow> ListApprovalFlowExecutionsFilter option
     \<Rightarrow> (ApprovalFlowExecution \<times> (ApprovalNodeExecution \<times> Approval list) list) list" where
  "ListApprovalFlowExecutions db flt =
     map (\<lambda>e. (e, getApprovalNodeExecutions db (e_ID e)))
       (sort_key (\<lambda>e. - e_CreateTime e)
          (filter (\<lambda>e. case flt of
                          None \<Rightarrow> True
                        | Some q \<Rightarrow>
                            (if le_FlowID q > 0 then e_FlowID e = le_FlowID q else True)
                            \<and> (if le_IssueID q > 0 then e_IssueID e = le_IssueID q else True)
                            \<and> (if le_SensitivityLevel q \<noteq> SENSITIVE_DATA_LEVEL_UNSPECIFIED
                                 then e_SensitivityLevel e = le_SensitivityLevel q else True)
                            \<and> (if le_Status q \<noteq> APPROVAL_FLOW_EXECUTION_STATUS_UNSPECIFIED
                                 then e_Status e = le_Status q else True))
             (executions db)))"

subsection \<open>\<open>Store.DeleteApprovalFlow\<close>\<close>

text \<open>
  After the check that the flow exists: \<open>DELETE FROM approval_node WHERE flow_id = ?\<close> and
  \<open>DELETE FROM approval_flow WHERE id = ?\<close>, in one transaction. The executions of the
  flow and their node executions are not looked at, and the sources declare no foreign key
  from them to the deleted rows.
\<close>

definition DeleteApprovalFlow :: "DB \<Rightarrow> int \<Rightarrow> store_error option \<times> DB" where
  "DeleteApprovalFlow db i =
     (if i \<le> 0 then (Some InvalidApprovalFlowID, db)
      else case getApprovalFlowWithNodes db i of
        Inl err \<Rightarrow> (Some err, db)
      | Inr _ \<Rightarrow>
          (None, db\<lparr>nodes := filter (\<lambda>r. an_flow_id r \<noteq> i) (nodes db),
                     flows := filter (\<lambda>f. af_ID f \<noteq> i) (flows db)\<rparr>))"

subsection \<open>\<open>Store.CreateApprovalFlowExecution\<close> and \<open>Store.UpdateApprovalFlowExecution\<close>\<close>

text \<open>
  One pass of the loop over the flow's nodes: the node execution of the first node (or of
  the only one) starts in progress, the others pending.
\<close>

definition insert_node_execution ::
  "int \<Rightarrow> ApprovalFlowExecution \<Rightarrow> ApprovalNode list \<Rightarrow> DB \<Rightarrow> ApprovalNode \<Rightarrow> DB" where
  "insert_node_execution executionID create ns tx node =
     tx\<lparr>node_executions := node_executions tx @
          [\<lparr>ne_ID = next_id (map ne_ID (node_executions tx)),
            ne_ExecutionID = executionID,
            ne_NodeID = an_ID node,
            ne_Status = (if length ns = 1 \<or> an_ID node = an_ID (hd ns)
                         then APPROVAL_NODE_EXECUTION_STATUS_IN_PROGRESS
                         else APPROVAL_NODE_EXECUTION_STATUS_PENDING),
            ne_CreatorID = e_CreatorID create,
            ne_UpdaterID = e_UpdaterID create,
            ne_CreateTime = now tx,
            ne_UpdateTime = now tx\<rparr>]\<rparr>"

text \<open>
  The execution row and the node execution rows are written through \<open>tx\<close>; the nodes and the
  finished execution are read through the pool. When the last read fails the deferred
  function rolls the transaction back, otherwise it commits.
\<close>

definition CreateApprovalFlowExecution ::
  "isolation \<Rightarrow> DB \<Rightarrow> ApprovalFlowExecution
     \<Rightarrow> (store_error + (ApprovalFlowExecution \<times> (ApprovalNodeExecution \<times> Approval list) list)) \<times> DB" where
  "CreateApprovalFlowExecution vis db create =
     (if e_FlowID create \<le> 0 then (Inl FlowIDRequired, db)
      else if e_IssueID create \<le> 0 then (Inl IssueIDRequired, db)
      else if e_SensitivityLevel create = SENSITIVE_DATA_LEVEL_UNSPECIFIED
        then (Inl SensitivityLevelRequired, db)
      else if e_Status create = APPROVAL_FLOW_EXECUTION_STATUS_UNSPECIFIED
        then (Inl StatusRequired, db)
      else (case getApprovalFlowWithNodes db (e_FlowID create) of
        Inl err \<Rightarrow> (Inl err, db)
      | Inr _ \<Rightarrow>
          (let executionID = next_id (map e_ID (executions db));
               tx1 = db\<lparr>executions := executions db @
                        [create\<lparr>e_ID := executionID, e_CreateTime := now db, e_UpdateTime := now db\<rparr>]\<rparr>;
               ns = getApprovalNodes (pool_view vis db tx1) (e_FlowID create);
               tx2 = foldl (insert_node_execution executionID create ns) tx1 ns
           in (case getApprovalFlowExecutionWithNodeExecutions (pool_view vis db tx2) executionID of
                 Inl err \<Rightarrow> (Inl RetrieveNewExecutionFailed, db)
               | Inr execution \<Rightarrow> (Inr execution, tx2)))))"

text \<open>\<open>UPDATE approval_flow_execution SET status = ?, updater_id = ? WHERE id = ?\<close>, on the pool.\<close>

definition UpdateApprovalFlowExecution ::
  "DB \<Rightarrow> ApprovalFlowExecution
     \<Rightarrow> (store_error + (ApprovalFlowExecution \<times> (ApprovalNodeExecution \<times> Approval list) list)) \<times> DB" where
  "UpdateApprovalFlowExecution db update =
     (if e_ID update \<le> 0 then (Inl InvalidExecutionID, db)
      else case getApprovalFlowExecutionWithNodeExecutions db (e_ID update) of
        Inl err \<Rightarrow> (Inl err, db)
      | Inr _ \<Rightarrow>
          let db' = db\<lparr>executions :=
                      map (\<lambda>e. if e_ID e = e_ID update
                                then e\<lparr>e_Status := e_Status update, e_UpdaterID := e_UpdaterID update\<rparr>
                                else e) (executions db)\<rparr>
          in (getApprovalFlowExecutionWithNodeExecutions db' (e_ID update), db'))"

subsection \<open>\<open>Store.CreateApproval\<close>\<close>

text \<open>The loop that counts the approved and the rejected decisions.\<close>

definition count_decisions :: "Approval list \<Rightarrow> int \<times> int" where
  "count_decisions as =
     fold (\<lambda>a (approvedCount, rejectedCount).
             if a_Status a = APPROVED then (approvedCount + 1, rejectedCount)
             else if a_Status a = REJECTED then (approvedCount, rejectedCount + 1)
             else (approvedCount, rejectedCount)) as (0, 0)"

definition decide_node_status :: "int \<Rightarrow> int \<Rightarrow> int \<Rightarrow> ApprovalNodeExecutionStatus" where
  "decide_node_status approvedCount rejectedCount requiredApprovals =
     (if rejectedCount > 0 then APPROVAL_NODE_EXECUTION_STATUS_REJECTED
      else if approvedCount \<ge> requiredApprovals then APPROVAL_NODE_EXECUTION_STATUS_APPROVED
      else APPROVAL_NODE_EXECUTION_STATUS_IN_PROGRESS)"

text \<open>\<open>UPDATE approval_node_execution SET status = ? WHERE id = ?\<close>.\<close>

definition set_node_execution_status :: "int \<Rightarrow> ApprovalNodeExecutionStatus \<Rightarrow> DB \<Rightarrow> DB" where
  "set_node_execution_status i st tx =
     tx\<lparr>node_executions := map (\<lambda>n. if ne_ID n = i then n\<lparr>ne_Status := st\<rparr> else n) (node_executions tx)\<rparr>"

text \<open>\<open>UPDATE approval_flow_execution SET status = ? WHERE id = ?\<close>.\<close>

definition set_execution_status :: "int \<Rightarrow> ApprovalFlowExecutionStatus \<Rightarrow> DB \<Rightarrow> DB" where
  "set_execution_status i st tx =
     tx\<lparr>executions := map (\<lambda>e. if e_ID e = i then e\<lparr>e_Status := st\<rparr> else e) (executions tx)\<rparr>"

text \<open>
  \<open>SELECT id FROM approval_node WHERE flow_id = (SELECT flow_id FROM approval_flow_execution
  WHERE id = ?) AND id > ? ORDER BY id LIMIT 1\<close>; \<open>nextNodeID\<close> stays 0 when there is no row.
\<close>

definition next_node_id :: "DB \<Rightarrow> ApprovalNodeExecution \<Rightarrow> int" where
  "next_node_id tx nodeExecution =
     (case find (\<lambda>e. e_ID e = ne_ExecutionID nodeExecution) (executions tx) of
        None \<Rightarrow> 0
      | Some e \<Rightarrow>
          (case sort (filter (\<lambda>i. i > ne_NodeID nodeExecution)
                        (map an_id (filter (\<lambda>r. an_flow_id r = e_FlowID e) (nodes tx)))) of
             [] \<Rightarrow> 0
           | i # _ \<Rightarrow> i))"

text \<open>
  The end of \<open>CreateApproval\<close>, after the node execution's status is written: an approved
  node starts the next node of the flow, or approves the execution when there is none; a
  rejected node rejects the execution.
\<close>

definition advance_execution ::
  "DB \<Rightarrow> ApprovalNodeExecution \<Rightarrow> ApprovalNodeExecutionStatus \<Rightarrow> Approval
     \<Rightarrow> (store_error + Approval) \<times> DB" where
  "advance_execution tx2 nodeExecution nodeExecutionStatus newApproval =
     (if nodeExecutionStatus = APPROVAL_NODE_EXECUTION_STATUS_APPROVED then
        (let nextNodeID = next_node_id tx2 nodeExecution
         in if nextNodeID > 0 then
              (case find (\<lambda>n. ne_ExecutionID n = ne_ExecutionID nodeExecution
                                \<and> ne_NodeID n = nextNodeID) (node_executions tx2) of
                 None \<Rightarrow> (Inl GetNextNodeExecutionFailed, tx2)
               | Some nextNodeExecution \<Rightarrow>
                   (Inr newApproval,
                    set_node_execution_status (ne_ID nextNodeExecution)
                      APPROVAL_NODE_EXECUTION_STATUS_IN_PROGRESS tx2))
            else (Inr newApproval,
                  set_execution_status (ne_ExecutionID nodeExecution) EXECUTION_APPROVED tx2))
      else if nodeExecutionStatus = APPROVAL_NODE_EXECUTION_STATUS_REJECTED then
        (Inr newApproval,
         set_execution_status (ne_ExecutionID nodeExecution) EXECUTION_REJECTED tx2)
      else (Inr newApproval, tx2))"

text \<open>
  The middle of \<open>CreateApproval\<close>: the decisions are counted over the approvals read before
  and the new one, the node's \<open>required_approvals\<close> is read, and the node execution's
  status is written.
\<close>

definition settle_node_execution ::
  "DB \<Rightarrow> Approval \<Rightarrow> ApprovalNodeExecution \<Rightarrow> Approval list \<Rightarrow> Approval
     \<Rightarrow> (store_error + Approval) \<times> DB" where
  "settle_node_execution tx1 create nodeExecution stored newApproval =
     (let (approvedCount, rejectedCount) = count_decisions (stored @ [newApproval])
      in (case find (\<lambda>r. an_id r = ne_NodeID nodeExecution) (nodes tx1) of
            None \<Rightarrow> (Inl GetRequiredApprovalsFailed, tx1)
          | Some node \<Rightarrow>
              (let nodeExecutionStatus =
                     decide_node_status approvedCount rejectedCount (an_required_approvals node)
               in advance_execution
                    (set_node_execution_status (a_NodeExecutionID create) nodeExecutionStatus tx1)
                    nodeExecution nodeExecutionStatus newApproval)))"

text \<open>
  The approval is inserted through \<open>tx\<close>; the node execution and the earlier approvals are
  read through the pool, everything else through \<open>tx\<close>. The deferred function looks at the
  function's own \<open>err\<close>: the reads that declare an \<open>err\<close> of their own in an
  \<open>if\<close> statement return their error while that variable is still \<open>nil\<close>, so the
  transaction is committed on those paths and rolled back on the others.
\<close>

definition CreateApproval :: "isolation \<Rightarrow> DB \<Rightarrow> Approval \<Rightarrow> (store_error + Approval) \<times> DB" where
  "CreateApproval vis db create =
     (if a_NodeExecutionID create \<le> 0 then (Inl NodeExecutionIDRequired, db)
      else if a_UserID create \<le> 0 then (Inl UserIDRequired, db)
      else if a_Status create = APPROVAL_STATUS_UNSPECIFIED then (Inl StatusRequired, db)
      else (case getApprovalNodeExecution db (a_NodeExecutionID create) of
        Inl err \<Rightarrow> (Inl err, db)
      | Inr _ \<Rightarrow>
          (let approvalID = next_id (map a_ID (approvals db));
               tx1 = db\<lparr>approvals := approvals db @
                        [create\<lparr>a_ID := approvalID, a_CreateTime := now db\<rparr>]\<rparr>
           in (case getApprovalNodeExecution (pool_view vis db tx1) (a_NodeExecutionID create) of
                 Inl err \<Rightarrow> (Inl err, db)
               | Inr nodeExecution \<Rightarrow>
                   (let stored = getApprovals (pool_view vis db tx1) (a_NodeExecutionID create)
                    in (case find (\<lambda>a. a_ID a = approvalID) (approvals tx1) of
                          None \<Rightarrow> (Inl GetNewApprovalFailed, tx1)
                        | Some newApproval \<Rightarrow>
                            settle_node_execution tx1 create nodeExecution stored newApproval))))))"

section \<open>Plan check (\<open>SensitiveDataChecker.Check\<close>)\<close>

record Plan =
  p_IssueID :: int
  p_Statement :: string

text \<open>The errors \<open>Check\<close> returns; \<open>None\<close> is its \<open>nil\<close>, which lets the plan run.\<close>

datatype check_error =
  FailedToRetrieveIssue
  | RequiresApproval ApprovalFlowExecutionStatus
  | WasRejected
  | NoEnabledApprovalFlow SensitiveDataLevel
  | FailedToCreateExecution store_error
  | ApprovalFlowCreated int

text \<open>The two helpers of the \<open>plancheck\<close> package: every statement touches one dummy table and column, of level HIGH.\<close>

definition plancheck_parseSchemaChange :: "string \<Rightarrow> string list \<times> string list" where
  "plancheck_parseSchemaChange schemaChange = ([''dummy_table''], [''dummy_column''])"

definition plancheck_detectSensitiveDataChanges ::
  "SensitiveDataRule list \<Rightarrow> string list \<Rightarrow> string list \<Rightarrow> SensitiveDataChange list" where
  "plancheck_detectSensitiveDataChanges rules tables columns =
     concat (map (\<lambda>table. map (\<lambda>column.
        \<lparr>c_TableName = table, c_FieldName = column,
         c_SensitivityLevel = SENSITIVE_DATA_LEVEL_HIGH,
         c_RuleID = 0, c_StartLine = 1, c_EndLine = 1\<rparr>) columns) tables)"

definition highest_level :: "SensitiveDataChange list \<Rightarrow> SensitiveDataLevel" where
  "highest_level changes =
     foldl (\<lambda>highest change.
              if level_ord (c_SensitivityLevel change) > level_ord highest
              then c_SensitivityLevel change else highest)
       SENSITIVE_DATA_LEVEL_UNSPECIFIED changes"

text \<open>The part of \<open>Check\<close> that runs when the switch on an existing execution does not return.\<close>

definition check_new_execution :: "isolation \<Rightarrow> DB \<Rightarrow> Issue \<Rightarrow> Plan \<Rightarrow> check_error option \<times> DB" where
  "check_new_execution vis db issue plan =
     (let rules = sensitive_data_rules db;
          (tables, columns) = plancheck_parseSchemaChange (p_Statement plan);
          sensitiveDataChanges = plancheck_detectSensitiveDataChanges rules tables columns
      in if length sensitiveDataChanges = 0 then (None, db)
         else
           let highestSensitivityLevel = highest_level sensitiveDataChanges
           in case ListApprovalFlows db
                     (Some \<lparr>lf_SensitivityLevel = highestSensitivityLevel, lf_Enabled = Some True\<rparr>) of
                [] \<Rightarrow> (Some (NoEnabledApprovalFlow highestSensitivityLevel), db)
              | (flow, _) # _ \<Rightarrow>
                  (case CreateApprovalFlowExecution vis db
                          \<lparr>e_ID = 0, e_FlowID = af_ID flow, e_IssueID = i_ID issue,
                           e_SensitivityLevel = highestSensitivityLevel,
                           e_Status = EXECUTION_IN_PROGRESS,
                           e_CreatorID = i_CreatorID issue, e_UpdaterID = i_CreatorID issue,
                           e_CreateTime = 0, e_UpdateTime = 0\<rparr> of
                     (Inl err, db') \<Rightarrow> (Some (FailedToCreateExecution err), db')
                   | (Inr (execution, _), db') \<Rightarrow> (Some (ApprovalFlowCreated (e_ID execution)), db')))"

text \<open>
  \<open>GetIssue\<close> is a method of the store provider whose body is not in the sources: it is the
  lookup of the issue by its identifier.
\<close>

definition Check :: "isolation \<Rightarrow> DB \<Rightarrow> Plan \<Rightarrow> check_error option \<times> DB" where
  "Check vis db plan =
     (case find (\<lambda>i. i_ID i = p_IssueID plan) (issues db) of
        None \<Rightarrow> (Some FailedToRetrieveIssue, db)
      | Some issue \<Rightarrow>
          (case ListApprovalFlowExecutions db
                  (Some \<lparr>le_FlowID = 0, le_IssueID = i_ID issue,
                         le_SensitivityLevel = SENSITIVE_DATA_LEVEL_UNSPECIFIED,
                         le_Status = APPROVAL_FLOW_EXECUTION_STATUS_UNSPECIFIED\<rparr>) of
             [] \<Rightarrow> check_new_execution vis db issue plan
           | (execution, _) # _ \<Rightarrow>
               (case e_Status execution of
                  APPROVAL_FLOW_EXECUTION_STATUS_UNSPECIFIED \<Rightarrow> (Some (RequiresApproval (e_Status execution)), db)
                | EXECUTION_PENDING \<Rightarrow> (Some (RequiresApproval (e_Status execution)), db)
                | EXECUTION_IN_PROGRESS \<Rightarrow> (Some (RequiresApproval (e_Status execution)), db)
                | EXECUTION_REJECTED \<Rightarrow> (Some WasRejected, db)
                | EXECUTION_APPROVED \<Rightarrow> (None, db)
                | EXECUTION_CANCELLED \<Rightarrow> check_new_execution vis db issue plan)))"

section \<open>Example states\<close>


text \<open>A project whose only flow is an enabled MEDIUM flow, and one issue.\<close>

definition medium_only_db :: DB where
  "medium_only_db =
     \<lparr>flows = [\<lparr>af_ID = 1, af_Title = ''M'', af_Description = [],
                af_SensitivityLevel = SENSITIVE_DATA_LEVEL_MEDIUM, af_Enabled = True,
                af_CreatorID = 1, af_UpdaterID = 1, af_CreateTime = 0, af_UpdateTime = 0\<rparr>],
      nodes = [\<lparr>an_id = 1, an_flow_id = 1, an_title = ''n'', an_description = [],
                an_approver_type = USER, an_approver_ids = ''7'', an_required_approvals = 1,
                an_creator_id = 1, an_updater_id = 1, an_create_time = 0, an_update_time = 0\<rparr>],
      executions = [], node_executions = [], approvals = [],
      issues = [\<lparr>i_ID = 5, i_CreatorID = 9\<rparr>], sensitive_data_rules = [], now = 100\<rparr>"

text \<open>
  A HIGH flow of two nodes and one execution of it for issue 5: node 1 asks for
  \<open>required\<close> approvals, node 2 for one; the execution's status, the first node
  execution's status and the stored approvals are parameters.
\<close>

definition high_flow :: ApprovalFlow where
  "high_flow = \<lparr>af_ID = 1, af_Title = ''high'', af_Description = [],
      af_SensitivityLevel = SENSITIVE_DATA_LEVEL_HIGH, af_Enabled = True,
      af_CreatorID = 1, af_UpdaterID = 1, af_CreateTime = 0, af_UpdateTime = 0\<rparr>"

definition step_node :: "int \<Rightarrow> int \<Rightarrow> string \<Rightarrow> approval_node_row" where
  "step_node i required approvers =
     \<lparr>an_id = i, an_flow_id = 1, an_title = ''step'', an_description = [],
      an_approver_type = USER, an_approver_ids = approvers, an_required_approvals = required,
      an_creator_id = 1, an_updater_id = 1, an_create_time = 0, an_update_time = 0\<rparr>"

definition decision :: "int \<Rightarrow> int \<Rightarrow> ApprovalStatus \<Rightarrow> Approval" where
  "decision nodeExecutionID userID st =
     \<lparr>a_ID = 0, a_NodeExecutionID = nodeExecutionID, a_UserID = userID, a_Status = st,
      a_Comment = [], a_CreateTime = 0\<rparr>"

definition two_step_db :: "int \<Rightarrow> ApprovalFlowExecutionStatus \<Rightarrow> ApprovalNodeExecutionStatus \<Rightarrow> Approval list \<Rightarrow> DB" where
  "two_step_db required st st1 as =
     \<lparr>flows = [high_flow],
      nodes = [step_node 1 required ''7,8'', step_node 2 1 ''9''],
      executions = [\<lparr>e_ID = 1, e_FlowID = 1, e_IssueID = 5,
                     e_SensitivityLevel = SENSITIVE_DATA_LEVEL_HIGH, e_Status = st,
                     e_CreatorID = 9, e_UpdaterID = 9, e_CreateTime = 100, e_UpdateTime = 100\<rparr>],
      node_executions =
        [\<lparr>ne_ID = 1, ne_ExecutionID = 1, ne_NodeID = 1, ne_Status = st1,
          ne_CreatorID = 9, ne_UpdaterID = 9, ne_CreateTime = 100, ne_UpdateTime = 100\<rparr>,
         \<lparr>ne_ID = 2, ne_ExecutionID = 1, ne_NodeID = 2,
          ne_Status = APPROVAL_NODE_EXECUTION_STATUS_PENDING,
          ne_CreatorID = 9, ne_UpdaterID = 9, ne_CreateTime = 100, ne_UpdateTime = 100\<rparr>],
      approvals = as,
      issues = [\<lparr>i_ID = 5, i_CreatorID = 9\<rparr>], sensitive_data_rules = [], now = 200\<rparr>"

text \<open>A database whose only flow is disabled and has no nodes, and a request to begin an execution of flow 1 for issue 5.\<close>

definition disabled_empty_db :: DB where
  "disabled_empty_db =
     \<lparr>flows = [high_flow\<lparr>af_Enabled := False\<rparr>], nodes = [], executions = [],
      node_executions = [], approvals = [],
      issues = [\<lparr>i_ID = 5, i_CreatorID = 9\<rparr>], sensitive_data_rules = [], now = 200\<rparr>"

definition begin_request :: ApprovalFlowExecution where
  "begin_request =
     \<lparr>e_ID = 0, e_FlowID = 1, e_IssueID = 5, e_SensitivityLevel = SENSITIVE_DATA_LEVEL_HIGH,
      e_Status = EXECUTION_IN_PROGRESS, e_CreatorID = 9, e_UpdaterID = 9,
      e_CreateTime = 0, e_UpdateTime = 0\<rparr>"

text \<open>
  A project as it is before any plan is checked: the enabled HIGH flow with three nodes, of
  which the first asks for \<open>required\<close> approvals and the others for one, issue 5, and
  no execution yet.
\<close>

definition fresh_db :: "int \<Rightarrow> DB" where
  "fresh_db required =
     \<lparr>flows = [high_flow],
      nodes = [step_node 1 required ''7,8'', step_node 2 1 ''9'', step_node 3 1 ''10''],
      executions = [], node_executions = [], approvals = [],
      issues = [\<lparr>i_ID = 5, i_CreatorID = 9\<rparr>], sensitive_data_rules = [], now = 100\<rparr>"


text \<open>The plan of issue 5 that the examples check.\<close>

definition plan5 :: Plan where
  "plan5 = \<lparr>p_IssueID = 5, p_Statement = ''UPDATE users SET email = NULL''\<rparr>"

text \<open>
  The same project after the plan of issue 5 has been checked once, on a pool that sees the
  transaction's rows, and then after the flow has been deleted while its execution is open.
\<close>

definition begun_db :: "int \<Rightarrow> DB" where
  "begun_db required = snd (Check ReadUncommitted (fresh_db required) plan5)"

definition flow_deleted_db :: "int \<Rightarrow> DB" where
  "flow_deleted_db required = snd (DeleteApprovalFlow (begun_db required) 1)"


section \<open>Notifications: what an update leaves alone\<close>

lemma update_notification_row_frame:
  "n_ID (update_notification_row u n) = n_ID n"
  "n_Type (update_notification_row u n) = n_Type n"
  "n_Title (update_notification_row u n) = n_Title n"
  "n_Content (update_notification_row u n) = n_Content n"
  "n_RecipientID (update_notification_row u n) = n_RecipientID n"
  "n_ApprovalFlowExecutionID (update_notification_row u n) = n_ApprovalFlowExecutionID n"
  "n_ApprovalNodeExecutionID (update_notification_row u n) = n_ApprovalNodeExecutionID n"
  "n_ApprovalID (update_notification_row u n) = n_ApprovalID n"
  "n_CreatorID (update_notification_row u n) = n_CreatorID n"
  "n_CreateTime (update_notification_row u n) = n_CreateTime n"
  by (simp_all add: update_notification_row_def Let_def split: option.splits)

text \<open>
  C10. Whatever the table and the request, and whether the update succeeds or fails, every
  row of the notification table keeps its identifier, type, title, content, recipient,
  execution, node execution and approval references, creator and creation time: only the
  read flag and the updater can differ.
\<close>

theorem UpdateNotification_frame:
  "map (\<lambda>n. (n_ID n, n_Type n, n_Title n, n_Content n, n_RecipientID n,
              n_ApprovalFlowExecutionID n, n_ApprovalNodeExecutionID n, n_ApprovalID n,
              n_CreatorID n, n_CreateTime n))
       (snd (UpdateNotification tbl u))
   = map (\<lambda>n. (n_ID n, n_Type n, n_Title n, n_Content n, n_RecipientID n,
              n_ApprovalFlowExecutionID n, n_ApprovalNodeExecutionID n, n_ApprovalID n,
              n_CreatorID n, n_CreateTime n)) tbl"
  by (simp add: UpdateNotification_def Let_def update_notification_row_frame)

theorem UpdateNotification_frame_witness:
  "map (\<lambda>n. (n_ID n, n_Title n, n_Read n, n_UpdaterID n))
     (snd (UpdateNotification
        [\<lparr>n_ID = 1, n_Type = ''approval_request'', n_Title = ''t'', n_Content = ''c'',
          n_RecipientID = 7, n_ApprovalFlowExecutionID = 1, n_ApprovalNodeExecutionID = 1,
          n_ApprovalID = 0, n_Read = False, n_CreatorID = 9, n_UpdaterID = 9,
          n_CreateTime = 100, n_UpdateTime = 100\<rparr>]
        \<lparr>u_ID = 1, u_Read = Some True, u_UpdaterID = 7\<rparr>))
   = [(1, ''t'', True, 7)]"
  using UpdateNotification_frame
    [of "[\<lparr>n_ID = 1, n_Type = ''approval_request'', n_Title = ''t'', n_Content = ''c'',
          n_RecipientID = 7, n_ApprovalFlowExecutionID = 1, n_ApprovalNodeExecutionID = 1,
          n_ApprovalID = 0, n_Read = False, n_CreatorID = 9, n_UpdaterID = 9,
          n_CreateTime = 100, n_UpdateTime = 100\<rparr>]"
        "\<lparr>u_ID = 1, u_Read = Some True, u_UpdaterID = 7\<rparr>"]
  by (simp add: UpdateNotification_def update_notification_row_def Let_def)

section \<open>Rule matcher: the table comparison\<close>

lemma split_on_not_Nil: "split_on c s \<noteq> []"
  by (induction s) (auto split: list.splits)

lemma split_on_no_sep: "c \<notin> set s \<Longrightarrow> split_on c s = [s]"
  by (induction s) auto

lemma split_on_sep_two: "\<exists>w v vs. split_on c (s @ c # t) = w # v # vs"
proof (induction s)
  case Nil
  obtain v vs where "split_on c t = v # vs"
    using split_on_not_Nil[of c t] by (cases "split_on c t") auto
  then show ?case by simp
next
  case (Cons x s)
  then obtain w v vs where "split_on c (s @ c # t) = w # v # vs" by blast
  then show ?case by simp
qed

lemma last_split_on_sep: "last (split_on c (s @ c # t)) = last (split_on c t)"
proof (induction s)
  case Nil
  then show ?case using split_on_not_Nil[of c t] by simp
next
  case (Cons x s)
  obtain w v vs where e: "split_on c (s @ c # t) = w # v # vs"
    using split_on_sep_two by blast
  then show ?case using Cons.IH by simp
qed

text \<open>The last piece of a split is what follows the last separator.\<close>

lemma last_split_on: "last (split_on c s) = rev (takeWhile (\<lambda>x. x \<noteq> c) (rev s))"
proof (cases "c \<in> set s")
  case True
  then obtain s1 t where s: "s = s1 @ c # t" and t: "c \<notin> set t"
    using split_list_last by fastforce
  have "last (split_on c s) = t"
    using s t by (simp add: last_split_on_sep split_on_no_sep)
  moreover have "takeWhile (\<lambda>x. x \<noteq> c) (rev s) = rev t"
    using s t by (auto simp: takeWhile_tail)
  ultimately show ?thesis by simp
next
  case False
  have "takeWhile (\<lambda>x. x \<noteq> c) (rev s) = rev s"
    using False by auto
  then have "rev (takeWhile (\<lambda>x. x \<noteq> c) (rev s)) = s"
    by (simp only: rev_rev_ident)
  moreover have "split_on c s = [s]"
    using False by (rule split_on_no_sep)
  ultimately show ?thesis by (simp only: last.simps refl if_True)
qed

lemma first_matching_rule_exact:
  "first_matching_rule compile rules table column
   = (case filter (\<lambda>r. (sr_TableName r = [] \<or> sr_TableName r = table)
                          \<and> fields_matched compile (sr_Fields r) column) rules of
        [] \<Rightarrow> []
      | r # _ \<Rightarrow> [\<lparr>c_TableName = table, c_FieldName = column, c_SensitivityLevel = sr_Level r,
                    c_RuleID = sr_ID r, c_StartLine = 1, c_EndLine = 1\<rparr>])"
  by (induction rules) auto

text \<open>
  C9, as the code has it. The service's matcher accepts a table exactly when the rule's
  table is empty or the table name is, character for character, what follows the last
  \<open>/\<close> of the rule's table (and the field pattern, when there is one, matches the field).
  The advisor reports, for each table and column in turn, one change from the first rule
  whose table name is empty or equal to the table and one of whose fields matches the
  column, and nothing when there is no such rule. Both comparisons are equality of strings:
  the letter case counts, and an empty table name matches every table.
\<close>

theorem rule_table_match_exact:
  "isRuleMatch rx rule table field =
     ((r_Table rule = [] \<or> table = rev (takeWhile (\<lambda>x. x \<noteq> CHR ''/'') (rev (r_Table rule))))
      \<and> (r_FieldPattern rule = [] \<or> rx (''^'' @ replace_stars (r_FieldPattern rule) @ ''$'') field))
   \<and> detectSensitiveDataChanges compile rules tables columns =
       concat (map (\<lambda>table. concat (map (\<lambda>column.
         (case filter (\<lambda>r. (sr_TableName r = [] \<or> sr_TableName r = table)
                            \<and> fields_matched compile (sr_Fields r) column) rules of
            [] \<Rightarrow> []
          | r # _ \<Rightarrow> [\<lparr>c_TableName = table, c_FieldName = column,
                        c_SensitivityLevel = sr_Level r, c_RuleID = sr_ID r,
                        c_StartLine = 1, c_EndLine = 1\<rparr>])) columns)) tables)"
  by (auto simp: isRuleMatch_def last_split_on detectSensitiveDataChanges_def
      first_matching_rule_exact)

theorem rule_table_match_exact_witness:
  "isRuleMatch (\<lambda>p s. True)
      \<lparr>r_Name = ''rules/users'', r_Table = ''projects/p/databases/d/tables/users'',
       r_FieldPattern = [], r_Level = SENSITIVE_DATA_LEVEL_LOW\<rparr> ''users'' ''email''
   \<and> isRuleMatch (\<lambda>p s. True)
      \<lparr>r_Name = ''rules/any'', r_Table = [], r_FieldPattern = [],
       r_Level = SENSITIVE_DATA_LEVEL_LOW\<rparr> ''orders'' ''email''
   \<and> detectSensitiveDataChanges (\<lambda>p. None)
        [\<lparr>sr_ID = 1, sr_TableName = ''users'',
          sr_Fields = [\<lparr>fp_FieldName = ''email'', fp_Regex = []\<rparr>],
          sr_Level = SENSITIVE_DATA_LEVEL_LOW\<rparr>,
         \<lparr>sr_ID = 2, sr_TableName = [],
          sr_Fields = [\<lparr>fp_FieldName = ''email'', fp_Regex = []\<rparr>],
          sr_Level = SENSITIVE_DATA_LEVEL_HIGH\<rparr>] [''users'', ''orders''] [''email'']
       = [\<lparr>c_TableName = ''users'', c_FieldName = ''email'',
           c_SensitivityLevel = SENSITIVE_DATA_LEVEL_LOW, c_RuleID = 1,
           c_StartLine = 1, c_EndLine = 1\<rparr>,
          \<lparr>c_TableName = ''orders'', c_FieldName = ''email'',
           c_SensitivityLevel = SENSITIVE_DATA_LEVEL_HIGH, c_RuleID = 2,
           c_StartLine = 1, c_EndLine = 1\<rparr>]"
  using rule_table_match_exact [of "\<lambda>p s. True"
      "\<lparr>r_Name = ''rules/users'', r_Table = ''projects/p/databases/d/tables/users'',
        r_FieldPattern = [], r_Level = SENSITIVE_DATA_LEVEL_LOW\<rparr>" "''users''" "''email''"
      "\<lambda>p. None"
      "[\<lparr>sr_ID = 1, sr_TableName = ''users'',
         sr_Fields = [\<lparr>fp_FieldName = ''email'', fp_Regex = []\<rparr>],
         sr_Level = SENSITIVE_DATA_LEVEL_LOW\<rparr>,
        \<lparr>sr_ID = 2, sr_TableName = [],
         sr_Fields = [\<lparr>fp_FieldName = ''email'', fp_Regex = []\<rparr>],
         sr_Level = SENSITIVE_DATA_LEVEL_HIGH\<rparr>]" "[''users'', ''orders'']" "[''email'']"]
    rule_table_match_exact [of "\<lambda>p s. True"
      "\<lparr>r_Name = ''rules/any'', r_Table = [], r_FieldPattern = [],
       r_Level = SENSITIVE_DATA_LEVEL_LOW\<rparr>" "''orders''" "''email''"]
  by simp


text \<open>
  C9 as stated fails: a rule for table \<open>Users\<close> matches no change to table \<open>users\<close>, in
  the service's matcher and in the advisor's.
\<close>

theorem rule_table_case_counterexample:
  "\<not> isRuleMatch (\<lambda>p s. True) \<lparr>r_Name = ''rules/users'', r_Table = ''Users'', r_FieldPattern = [],
        r_Level = SENSITIVE_DATA_LEVEL_LOW\<rparr> ''users'' ''email''
   \<and> detectSensitiveDataChanges (\<lambda>p. None)
        [\<lparr>sr_ID = 1, sr_TableName = ''Users'',
          sr_Fields = [\<lparr>fp_FieldName = ''email'', fp_Regex = []\<rparr>],
          sr_Level = SENSITIVE_DATA_LEVEL_LOW\<rparr>] [''users''] [''email''] = []"
  by (simp add: isRuleMatch_def detectSensitiveDataChanges_def)

section \<open>Recording a decision\<close>

lemma count_fold:
  "fold (\<lambda>a (approvedCount, rejectedCount).
             if a_Status a = APPROVED then (approvedCount + 1, rejectedCount)
             else if a_Status a = REJECTED then (approvedCount, rejectedCount + 1)
             else (approvedCount, rejectedCount)) xs (p, q)
   = (p + int (length (filter (\<lambda>a. a_Status a = APPROVED) xs)),
      q + int (length (filter (\<lambda>a. a_Status a = REJECTED) xs)))"
  by (induction xs arbitrary: p q) auto

lemma count_decisions_eq:
  "count_decisions xs
   = (int (length (filter (\<lambda>a. a_Status a = APPROVED) xs)),
      int (length (filter (\<lambda>a. a_Status a = REJECTED) xs)))"
  by (simp add: count_decisions_def count_fold)

lemma max_id_ge: "x \<in> set ids \<Longrightarrow> x \<le> max_id ids"
  by (induction ids) auto

lemma next_id_fresh: "x \<in> set ids \<Longrightarrow> x \<noteq> next_id ids"
  using max_id_ge [of x ids] by (auto simp: next_id_def)

lemma find_append_new:
  "\<forall>x \<in> set xs. \<not> P x \<Longrightarrow> P y \<Longrightarrow> find P (xs @ [y]) = Some y"
  by (induction xs) auto

lemma find_new_approval:
  "find (\<lambda>a. a_ID a = next_id (map a_ID as))
        (as @ [c\<lparr>a_ID := next_id (map a_ID as), a_CreateTime := t\<rparr>])
   = Some (c\<lparr>a_ID := next_id (map a_ID as), a_CreateTime := t\<rparr>)"
proof (rule find_append_new)
  show "\<forall>x\<in>set as. a_ID x \<noteq> next_id (map a_ID as)"
    using next_id_fresh [of _ "map a_ID as"] by auto
  show "a_ID (c\<lparr>a_ID := next_id (map a_ID as), a_CreateTime := t\<rparr>) = next_id (map a_ID as)"
    by simp
qed

lemma pool_view_node_executions:
  "node_executions tx = node_executions db \<Longrightarrow>
   getApprovalNodeExecution (pool_view vis db tx) i = getApprovalNodeExecution db i"
  by (cases vis) (simp_all add: pool_view_def getApprovalNodeExecution_def)

text \<open>The transaction's state after the insert, and the approvals \<open>CreateApproval\<close> counts.\<close>

lemma CreateApproval_found:
  assumes "0 < a_NodeExecutionID c" "0 < a_UserID c" "a_Status c \<noteq> APPROVAL_STATUS_UNSPECIFIED"
    and "getApprovalNodeExecution db (a_NodeExecutionID c) = Inr ne"
  shows "CreateApproval vis db c =
     settle_node_execution
       (db\<lparr>approvals := approvals db @ [c\<lparr>a_ID := next_id (map a_ID (approvals db)), a_CreateTime := now db\<rparr>]\<rparr>)
       c ne
       (getApprovals (pool_view vis db
          (db\<lparr>approvals := approvals db @ [c\<lparr>a_ID := next_id (map a_ID (approvals db)), a_CreateTime := now db\<rparr>]\<rparr>))
          (a_NodeExecutionID c))
       (c\<lparr>a_ID := next_id (map a_ID (approvals db)), a_CreateTime := now db\<rparr>)"
  using assms
  by (simp add: CreateApproval_def Let_def pool_view_node_executions find_new_approval)

lemma CreateApproval_Inr_found:
  assumes "CreateApproval vis db c = (Inr a, db')"
  shows "0 < a_NodeExecutionID c \<and> 0 < a_UserID c \<and> a_Status c \<noteq> APPROVAL_STATUS_UNSPECIFIED
     \<and> (\<exists>ne. getApprovalNodeExecution db (a_NodeExecutionID c) = Inr ne)"
  using assms
  by (auto simp: CreateApproval_def Let_def split: if_splits sum.splits)


text \<open>
  When the node of the node execution is gone, the call returns an error, yet the approval
  it inserted stays: that read declares its own \<open>err\<close>, so the deferred function commits.
\<close>

lemma CreateApproval_missing_node_commits:
  assumes "0 < a_NodeExecutionID create" "0 < a_UserID create"
    "a_Status create \<noteq> APPROVAL_STATUS_UNSPECIFIED"
    and "getApprovalNodeExecution db (a_NodeExecutionID create) = Inr nodeExecution"
    and "find (\<lambda>r. an_id r = ne_NodeID nodeExecution) (nodes db) = None"
  shows "CreateApproval vis db create
         = (Inl GetRequiredApprovalsFailed,
            db\<lparr>approvals := approvals db @
                 [create\<lparr>a_ID := next_id (map a_ID (approvals db)), a_CreateTime := now db\<rparr>]\<rparr>)"
  using CreateApproval_found [OF assms(1-4), of vis] assms(5)
  by (simp add: settle_node_execution_def split: prod.splits)

lemma set_getApprovals:
  "set (getApprovals db i) = {a \<in> set (approvals db). a_NodeExecutionID a = i}"
  by (auto simp: getApprovals_def)

lemma rejected_count_pos:
  "0 < snd (count_decisions xs) \<longleftrightarrow> (\<exists>x \<in> set xs. a_Status x = REJECTED)"
  by (auto simp: count_decisions_eq filter_empty_conv)

lemma counted_rejected:
  "(\<exists>x \<in> set (getApprovals (pool_view vis db
        (db\<lparr>approvals := approvals db @ [c\<lparr>a_ID := k, a_CreateTime := t\<rparr>]\<rparr>)) (a_NodeExecutionID c)
        @ [c\<lparr>a_ID := k, a_CreateTime := t\<rparr>]). a_Status x = REJECTED)
   \<longleftrightarrow> (a_Status c = REJECTED
        \<or> (\<exists>x \<in> set (approvals db). a_NodeExecutionID x = a_NodeExecutionID c \<and> a_Status x = REJECTED))"
  by (cases vis) (auto simp: pool_view_def set_getApprovals)

lemma settle_rejected:
  assumes "\<exists>x \<in> set (stored @ [new]). a_Status x = REJECTED"
    and "settle_node_execution tx1 c ne stored new = (Inr a, db')"
  shows "db' = set_execution_status (ne_ExecutionID ne) EXECUTION_REJECTED
                 (set_node_execution_status (a_NodeExecutionID c)
                    APPROVAL_NODE_EXECUTION_STATUS_REJECTED tx1)"
proof -
  have "0 < snd (count_decisions (stored @ [new]))"
    using assms(1) by (simp only: rejected_count_pos)
  then show ?thesis
    using assms(2)
    by (auto simp: settle_node_execution_def advance_execution_def decide_node_status_def
        Let_def split: prod.splits option.splits)
qed

text \<open>
  A call that succeeds. When some decision on the node execution, the new one included, is
  REJECTED, then afterwards the node execution is REJECTED, the execution that owns it is
  REJECTED, and every other node execution is exactly as it was before (so the node
  executions at higher positions that were PENDING are still PENDING). This holds for both
  behaviours of the pool.
\<close>

lemma CreateApproval_rejection_on_success:
  assumes "CreateApproval vis db create = (Inr a, db')"
    and "a_Status create = REJECTED
         \<or> (\<exists>x \<in> set (approvals db).
               a_NodeExecutionID x = a_NodeExecutionID create \<and> a_Status x = REJECTED)"
  shows "\<exists>nodeExecution.
           getApprovalNodeExecution db (a_NodeExecutionID create) = Inr nodeExecution
         \<and> node_executions db'
             = map (\<lambda>n. if ne_ID n = a_NodeExecutionID create
                         then n\<lparr>ne_Status := APPROVAL_NODE_EXECUTION_STATUS_REJECTED\<rparr> else n)
                 (node_executions db)
         \<and> executions db'
             = map (\<lambda>e. if e_ID e = ne_ExecutionID nodeExecution
                         then e\<lparr>e_Status := EXECUTION_REJECTED\<rparr> else e)
                 (executions db)"
proof -
  from CreateApproval_Inr_found [OF assms(1)]
  obtain ne where v: "0 < a_NodeExecutionID create" "0 < a_UserID create"
      "a_Status create \<noteq> APPROVAL_STATUS_UNSPECIFIED"
    and ne: "getApprovalNodeExecution db (a_NodeExecutionID create) = Inr ne"
    by blast
  let ?new = "create\<lparr>a_ID := next_id (map a_ID (approvals db)), a_CreateTime := now db\<rparr>"
  let ?tx1 = "db\<lparr>approvals := approvals db @ [?new]\<rparr>"
  let ?stored = "getApprovals (pool_view vis db ?tx1) (a_NodeExecutionID create)"
  have s: "settle_node_execution ?tx1 create ne ?stored ?new = (Inr a, db')"
    using CreateApproval_found [OF v ne, of vis] assms(1) by simp
  have "\<exists>x \<in> set (?stored @ [?new]). a_Status x = REJECTED"
    using assms(2) by (simp only: counted_rejected)
  from settle_rejected [OF this s]
  have "db' = set_execution_status (ne_ExecutionID ne) EXECUTION_REJECTED
                 (set_node_execution_status (a_NodeExecutionID create)
                    APPROVAL_NODE_EXECUTION_STATUS_REJECTED ?tx1)" .
  then show ?thesis using ne
    by (simp add: set_execution_status_def set_node_execution_status_def)
qed


lemma find_map_preserve:
  "(\<And>x. P (f x) = P x) \<Longrightarrow> find P (map f xs) = map_option f (find P xs)"
  by (induction xs) auto

lemma find_Some_set: "find P xs = Some x \<Longrightarrow> x \<in> set xs \<and> P x"
  by (induction xs) (auto split: if_splits)

lemma length_filter_getApprovals:
  "length (filter P (getApprovals db i))
   = length (filter (\<lambda>x. a_NodeExecutionID x = i \<and> P x) (approvals db))"
proof -
  have "mset (filter P (getApprovals db i))
        = mset (filter (\<lambda>x. a_NodeExecutionID x = i \<and> P x) (approvals db))"
    by (simp add: getApprovals_def filter_filter_mset)
  then have "size (mset (filter P (getApprovals db i)))
        = size (mset (filter (\<lambda>x. a_NodeExecutionID x = i \<and> P x) (approvals db)))"
    by (rule arg_cong)
  then show ?thesis by (simp only: size_mset)
qed

lemma next_node_id_greater:
  "0 < next_node_id db ne \<Longrightarrow> ne_NodeID ne < next_node_id db ne"
proof -
  assume pos: "0 < next_node_id db ne"
  then obtain e where e: "find (\<lambda>e. e_ID e = ne_ExecutionID ne) (executions db) = Some e"
    by (cases "find (\<lambda>e. e_ID e = ne_ExecutionID ne) (executions db)")
       (auto simp: next_node_id_def)
  let ?ids = "filter (\<lambda>i. i > ne_NodeID ne)
                (map an_id (filter (\<lambda>r. an_flow_id r = e_FlowID e) (nodes db)))"
  from pos e obtain i rest where srt: "sort ?ids = i # rest" and i: "next_node_id db ne = i"
    by (cases "sort ?ids") (auto simp: next_node_id_def)
  have "i \<in> set (sort ?ids)" using srt by simp
  then have "i \<in> set ?ids" by simp
  then show ?thesis using i by simp
qed

text \<open>
  With node identifiers that are not negative, \<open>nextNodeID\<close> is 0 exactly when the flow of
  the execution has no node with a greater identifier: the node is the last of its flow.
\<close>

lemma next_node_id_last_node:
  assumes "find (\<lambda>e. e_ID e = ne_ExecutionID ne) (executions db) = Some e"
    and "0 \<le> ne_NodeID ne"
  shows "next_node_id db ne \<le> 0
         \<longleftrightarrow> \<not> (\<exists>r \<in> set (nodes db). an_flow_id r = e_FlowID e \<and> ne_NodeID ne < an_id r)"
proof -
  let ?ids = "filter (\<lambda>i. i > ne_NodeID ne)
                (map an_id (filter (\<lambda>r. an_flow_id r = e_FlowID e) (nodes db)))"
  show ?thesis
  proof (cases "sort ?ids")
    case Nil
    then have "set (sort ?ids) = {}" by simp
    then have "set ?ids = {}" by simp
    then have "\<not> (\<exists>r \<in> set (nodes db). an_flow_id r = e_FlowID e \<and> ne_NodeID ne < an_id r)"
      by auto
    then show ?thesis using Nil assms(1) by (simp add: next_node_id_def)
  next
    case (Cons i rest)
    then have "i \<in> set (sort ?ids)" by simp
    then have i: "i \<in> set ?ids" by simp
    then have "ne_NodeID ne < i" by simp
    moreover have "\<exists>r \<in> set (nodes db). an_flow_id r = e_FlowID e \<and> ne_NodeID ne < an_id r"
      using i by auto
    ultimately show ?thesis using Cons assms by (simp add: next_node_id_def)
  qed
qed

lemma distinct_ids_eq:
  "distinct (map f xs) \<Longrightarrow> x \<in> set xs \<Longrightarrow> y \<in> set xs \<Longrightarrow> f x = f y \<Longrightarrow> x = y"
  by (auto simp: distinct_map inj_on_def)

lemma settle_no_rejection:
  assumes "\<forall>x \<in> set (stored @ [new]). a_Status x \<noteq> REJECTED"
    and "settle_node_execution tx1 c ne stored new = (Inr a, db')"
  shows "\<exists>node. find (\<lambda>r. an_id r = ne_NodeID ne) (nodes tx1) = Some node
     \<and> (if an_required_approvals node
             \<le> int (length (filter (\<lambda>x. a_Status x = APPROVED) (stored @ [new])))
         then advance_execution
                (set_node_execution_status (a_NodeExecutionID c) APPROVAL_NODE_EXECUTION_STATUS_APPROVED tx1)
                ne APPROVAL_NODE_EXECUTION_STATUS_APPROVED new = (Inr a, db')
         else db' = set_node_execution_status (a_NodeExecutionID c)
                      APPROVAL_NODE_EXECUTION_STATUS_IN_PROGRESS tx1)"
proof -
  have r: "snd (count_decisions (stored @ [new])) = 0"
    using assms(1) by (simp add: count_decisions_eq)
  have k: "fst (count_decisions (stored @ [new]))
           = int (length (filter (\<lambda>x. a_Status x = APPROVED) (stored @ [new])))"
    by (simp add: count_decisions_eq)
  obtain node where n: "find (\<lambda>r. an_id r = ne_NodeID ne) (nodes tx1) = Some node"
    using assms(2)
    by (cases "find (\<lambda>r. an_id r = ne_NodeID ne) (nodes tx1)")
       (auto simp: settle_node_execution_def split: prod.splits)
  show ?thesis
  proof (cases "an_required_approvals node
             \<le> int (length (filter (\<lambda>x. a_Status x = APPROVED) (stored @ [new])))")
    case True
    then show ?thesis
      using assms(2) n r k
      by (simp add: settle_node_execution_def decide_node_status_def Let_def split: prod.splits)
  next
    case False
    then show ?thesis
      using assms(2) n r k
      by (auto simp: settle_node_execution_def decide_node_status_def advance_execution_def Let_def
          split: prod.splits)
  qed
qed

lemma next_node_id_frame:
  "executions tx = executions db \<Longrightarrow> nodes tx = nodes db \<Longrightarrow> next_node_id tx ne = next_node_id db ne"
  by (simp add: next_node_id_def split: option.splits)


lemma advance_approved:
  assumes "advance_execution tx2 ne APPROVAL_NODE_EXECUTION_STATUS_APPROVED new = (Inr a, db')"
  shows "if 0 < next_node_id tx2 ne
         then \<exists>nx. find (\<lambda>n. ne_ExecutionID n = ne_ExecutionID ne
                              \<and> ne_NodeID n = next_node_id tx2 ne) (node_executions tx2) = Some nx
                 \<and> db' = set_node_execution_status (ne_ID nx)
                            APPROVAL_NODE_EXECUTION_STATUS_IN_PROGRESS tx2
         else db' = set_execution_status (ne_ExecutionID ne) EXECUTION_APPROVED tx2"
  using assms
  by (auto simp: advance_execution_def Let_def split: option.splits)

text \<open>
  A call that succeeds on a pool that does not see the rows of the open transaction. When
  no decision stored for the node execution is REJECTED: if the number of APPROVED
  decisions stored for it has reached the node's \<open>required_approvals\<close>, the node
  execution is APPROVED afterwards, and either the flow has a node with a greater
  identifier, whose node execution is then IN_PROGRESS while the execution's status is
  untouched, or it has none and the execution is APPROVED; if the number has not reached
  it, the node execution is IN_PROGRESS and the execution's status is untouched.
\<close>

lemma CreateApproval_quorum_committed_pool:
  assumes run: "CreateApproval ReadCommitted db create = (Inr a, db')"
    and dist: "distinct (map ne_ID (node_executions db))"
    and norej: "\<not> (\<exists>x \<in> set (approvals db').
                     a_NodeExecutionID x = a_NodeExecutionID create \<and> a_Status x = REJECTED)"
  shows "\<exists>nodeExecution node.
           getApprovalNodeExecution db (a_NodeExecutionID create) = Inr nodeExecution
         \<and> find (\<lambda>r. an_id r = ne_NodeID nodeExecution) (nodes db) = Some node
         \<and> (if an_required_approvals node
                 \<le> int (length (filter (\<lambda>x. a_NodeExecutionID x = a_NodeExecutionID create
                                            \<and> a_Status x = APPROVED) (approvals db')))
             then getApprovalNodeExecution db' (a_NodeExecutionID create)
                    = Inr (nodeExecution\<lparr>ne_Status := APPROVAL_NODE_EXECUTION_STATUS_APPROVED\<rparr>)
                \<and> (if 0 < next_node_id db nodeExecution
                    then (\<exists>nx. find (\<lambda>n. ne_ExecutionID n = ne_ExecutionID nodeExecution
                                        \<and> ne_NodeID n = next_node_id db nodeExecution)
                                 (node_executions db') = Some nx
                              \<and> ne_Status nx = APPROVAL_NODE_EXECUTION_STATUS_IN_PROGRESS)
                         \<and> executions db' = executions db
                    else executions db'
                           = map (\<lambda>e. if e_ID e = ne_ExecutionID nodeExecution
                                       then e\<lparr>e_Status := EXECUTION_APPROVED\<rparr> else e)
                               (executions db))
             else getApprovalNodeExecution db' (a_NodeExecutionID create)
                    = Inr (nodeExecution\<lparr>ne_Status := APPROVAL_NODE_EXECUTION_STATUS_IN_PROGRESS\<rparr>)
                \<and> executions db' = executions db)"
proof -
  from CreateApproval_Inr_found [OF run]
  obtain ne where v: "0 < a_NodeExecutionID create" "0 < a_UserID create"
      "a_Status create \<noteq> APPROVAL_STATUS_UNSPECIFIED"
    and ne: "getApprovalNodeExecution db (a_NodeExecutionID create) = Inr ne"
    by blast
  let ?i = "a_NodeExecutionID create"
  let ?new = "create\<lparr>a_ID := next_id (map a_ID (approvals db)), a_CreateTime := now db\<rparr>"
  let ?tx1 = "db\<lparr>approvals := approvals db @ [?new]\<rparr>"
  let ?stored = "getApprovals db ?i"
  let ?f = "\<lambda>n. if ne_ID n = ?i then n\<lparr>ne_Status := APPROVAL_NODE_EXECUTION_STATUS_APPROVED\<rparr> else n"
  let ?tx2 = "set_node_execution_status ?i APPROVAL_NODE_EXECUTION_STATUS_APPROVED ?tx1"
  have s: "settle_node_execution ?tx1 create ne ?stored ?new = (Inr a, db')"
    using CreateApproval_found [OF v ne, of ReadCommitted] run by (simp add: pool_view_def)
  have fnd: "find (\<lambda>n. ne_ID n = ?i) (node_executions db) = Some ne"
    using ne by (auto simp: getApprovalNodeExecution_def split: option.splits)
  then have ne_in: "ne \<in> set (node_executions db)" and ne_id: "ne_ID ne = ?i"
    using find_Some_set [OF fnd] by auto
  have appr: "approvals db' = approvals db @ [?new]"
    using s
    by (auto simp: settle_node_execution_def advance_execution_def set_node_execution_status_def
        set_execution_status_def Let_def split: prod.splits option.splits if_splits)
  have nr: "\<forall>x \<in> set (?stored @ [?new]). a_Status x \<noteq> REJECTED"
    using norej appr by (auto simp: set_getApprovals)
  have cnt: "length (filter (\<lambda>x. a_Status x = APPROVED) (?stored @ [?new]))
             = length (filter (\<lambda>x. a_NodeExecutionID x = ?i \<and> a_Status x = APPROVED) (approvals db'))"
    by (simp add: appr length_filter_getApprovals)
  from settle_no_rejection [OF nr s]
  obtain node where node: "find (\<lambda>r. an_id r = ne_NodeID ne) (nodes db) = Some node"
    and br: "if an_required_approvals node
                 \<le> int (length (filter (\<lambda>x. a_Status x = APPROVED) (?stored @ [?new])))
             then advance_execution ?tx2 ne APPROVAL_NODE_EXECUTION_STATUS_APPROVED ?new = (Inr a, db')
             else db' = set_node_execution_status ?i APPROVAL_NODE_EXECUTION_STATUS_IN_PROGRESS ?tx1"
    by auto
  show ?thesis
  proof (cases "an_required_approvals node
                 \<le> int (length (filter (\<lambda>x. a_NodeExecutionID x = ?i \<and> a_Status x = APPROVED)
                                   (approvals db')))")
    case False
    then have "db' = set_node_execution_status ?i APPROVAL_NODE_EXECUTION_STATUS_IN_PROGRESS ?tx1"
      using br cnt by simp
    then have "getApprovalNodeExecution db' ?i
                 = Inr (ne\<lparr>ne_Status := APPROVAL_NODE_EXECUTION_STATUS_IN_PROGRESS\<rparr>)
               \<and> executions db' = executions db"
      using fnd ne_id
      by (simp add: set_node_execution_status_def getApprovalNodeExecution_def find_map_preserve)
    then show ?thesis using ne node False by simp
  next
    case True
    then have adv: "advance_execution ?tx2 ne APPROVAL_NODE_EXECUTION_STATUS_APPROVED ?new = (Inr a, db')"
      using br cnt by simp
    have nxt: "next_node_id ?tx2 ne = next_node_id db ne"
      by (rule next_node_id_frame) (simp_all add: set_node_execution_status_def)
    have nes2: "node_executions ?tx2 = map ?f (node_executions db)"
      by (simp add: set_node_execution_status_def)
    show ?thesis
    proof (cases "0 < next_node_id db ne")
      case False
      then have "db' = set_execution_status (ne_ExecutionID ne) EXECUTION_APPROVED ?tx2"
        using advance_approved [OF adv] nxt by simp
      then have "getApprovalNodeExecution db' ?i
                   = Inr (ne\<lparr>ne_Status := APPROVAL_NODE_EXECUTION_STATUS_APPROVED\<rparr>)
                 \<and> executions db'
                     = map (\<lambda>e. if e_ID e = ne_ExecutionID ne
                                 then e\<lparr>e_Status := EXECUTION_APPROVED\<rparr> else e) (executions db)"
        using fnd ne_id
        by (simp add: set_execution_status_def set_node_execution_status_def
            getApprovalNodeExecution_def find_map_preserve)
      then show ?thesis using ne node True False by simp
    next
      case pos: True
      let ?P = "\<lambda>n. ne_ExecutionID n = ne_ExecutionID ne \<and> ne_NodeID n = next_node_id db ne"
      from advance_approved [OF adv] pos nxt
      obtain nx where nx: "find ?P (node_executions ?tx2) = Some nx"
        and db': "db' = set_node_execution_status (ne_ID nx)
                          APPROVAL_NODE_EXECUTION_STATUS_IN_PROGRESS ?tx2"
        by auto
      have "find ?P (map ?f (node_executions db)) = map_option ?f (find ?P (node_executions db))"
        by (rule find_map_preserve) simp
      with nx nes2 obtain nx0 where nx0: "find ?P (node_executions db) = Some nx0"
        and nx_eq: "nx = ?f nx0"
        by (cases "find ?P (node_executions db)") auto
      have nx0_in: "nx0 \<in> set (node_executions db)" and nx0_node: "ne_NodeID nx0 = next_node_id db ne"
        using find_Some_set [OF nx0] by auto
      have gt: "ne_NodeID ne < next_node_id db ne"
        using next_node_id_greater [OF pos] .
      have neq: "ne_ID nx0 \<noteq> ?i"
      proof
        assume "ne_ID nx0 = ?i"
        then have "nx0 = ne"
          using distinct_ids_eq [OF dist nx0_in ne_in] ne_id by simp
        then show False using gt nx0_node by simp
      qed
      have nx_id: "ne_ID nx = ne_ID nx0" using nx_eq by simp
      let ?g = "\<lambda>n. if ne_ID n = ne_ID nx0
                     then n\<lparr>ne_Status := APPROVAL_NODE_EXECUTION_STATUS_IN_PROGRESS\<rparr> else n"
      have nes': "node_executions db' = map ?g (map ?f (node_executions db))"
        using db' nx_id by (simp add: set_node_execution_status_def)
      have ex': "executions db' = executions db"
        using db' by (simp add: set_node_execution_status_def)
      have "find (\<lambda>n. ne_ID n = ?i) (map ?g (map ?f (node_executions db)))
              = map_option ?g (map_option ?f (find (\<lambda>n. ne_ID n = ?i) (node_executions db)))"
        by (simp add: find_map_preserve option.map_comp)
      then have tgt: "getApprovalNodeExecution db' ?i
                   = Inr (ne\<lparr>ne_Status := APPROVAL_NODE_EXECUTION_STATUS_APPROVED\<rparr>)"
        using fnd ne_id neq nes' by (simp add: getApprovalNodeExecution_def)
      have "find ?P (map ?g (map ?f (node_executions db)))
              = map_option ?g (map_option ?f (find ?P (node_executions db)))"
        by (simp add: find_map_preserve option.map_comp)
      then have "find ?P (node_executions db') = Some (?g (?f nx0))"
        using nx0 nes' by simp
      moreover have "ne_Status (?g (?f nx0)) = APPROVAL_NODE_EXECUTION_STATUS_IN_PROGRESS"
        by simp
      ultimately have "\<exists>nx. find ?P (node_executions db') = Some nx
                         \<and> ne_Status nx = APPROVAL_NODE_EXECUTION_STATUS_IN_PROGRESS"
        by blast
      then show ?thesis using ne node True pos tgt ex' by simp
    qed
  qed
qed

lemmas ex_defs = two_step_db_def high_flow_def step_node_def decision_def
lemmas run_defs = CreateApproval_def settle_node_execution_def advance_execution_def
  getApprovalNodeExecution_def getApprovals_def pool_view_def next_id_def count_decisions_def
  decide_node_status_def set_node_execution_status_def set_execution_status_def next_node_id_def
  Let_def



text \<open>
  The two pools differ on the count. A first APPROVED decision on a node that requires two
  leaves the node execution IN_PROGRESS when the pool reads committed rows only; a pool that
  also reads the row just inserted hands it to the loop twice, and the node execution is
  APPROVED.
\<close>

lemma CreateApproval_uncommitted_read_counts_twice:
  "map ne_Status (node_executions (snd (CreateApproval ReadUncommitted
       (two_step_db 2 EXECUTION_IN_PROGRESS APPROVAL_NODE_EXECUTION_STATUS_IN_PROGRESS [])
       (decision 1 7 APPROVED))))
     = [APPROVAL_NODE_EXECUTION_STATUS_APPROVED, APPROVAL_NODE_EXECUTION_STATUS_IN_PROGRESS]
   \<and> map ne_Status (node_executions (snd (CreateApproval ReadCommitted
       (two_step_db 2 EXECUTION_IN_PROGRESS APPROVAL_NODE_EXECUTION_STATUS_IN_PROGRESS [])
       (decision 1 7 APPROVED))))
     = [APPROVAL_NODE_EXECUTION_STATUS_IN_PROGRESS, APPROVAL_NODE_EXECUTION_STATUS_PENDING]"
  by (simp add: run_defs ex_defs)

lemma CreateApproval_rejection_on_success_example:
  "fst (CreateApproval ReadCommitted
          (two_step_db 2 EXECUTION_IN_PROGRESS APPROVAL_NODE_EXECUTION_STATUS_IN_PROGRESS
             [(decision 1 7 APPROVED)\<lparr>a_ID := 1\<rparr>])
          (decision 1 8 REJECTED))
     = Inr ((decision 1 8 REJECTED)\<lparr>a_ID := 2, a_CreateTime := 200\<rparr>)
   \<and> map ne_Status (node_executions (snd (CreateApproval ReadCommitted
          (two_step_db 2 EXECUTION_IN_PROGRESS APPROVAL_NODE_EXECUTION_STATUS_IN_PROGRESS
             [(decision 1 7 APPROVED)\<lparr>a_ID := 1\<rparr>])
          (decision 1 8 REJECTED))))
     = [APPROVAL_NODE_EXECUTION_STATUS_REJECTED, APPROVAL_NODE_EXECUTION_STATUS_PENDING]
   \<and> map e_Status (executions (snd (CreateApproval ReadCommitted
          (two_step_db 2 EXECUTION_IN_PROGRESS APPROVAL_NODE_EXECUTION_STATUS_IN_PROGRESS
             [(decision 1 7 APPROVED)\<lparr>a_ID := 1\<rparr>])
          (decision 1 8 REJECTED))))
     = [EXECUTION_REJECTED]"
proof -
  let ?db = "two_step_db 2 EXECUTION_IN_PROGRESS APPROVAL_NODE_EXECUTION_STATUS_IN_PROGRESS
             [(decision 1 7 APPROVED)\<lparr>a_ID := 1\<rparr>]"
  let ?c = "decision 1 8 REJECTED"
  obtain r db' where run: "CreateApproval ReadCommitted ?db ?c = (r, db')"
    by fastforce
  have r: "r = Inr (?c\<lparr>a_ID := 2, a_CreateTime := 200\<rparr>)"
    using run by (simp add: run_defs ex_defs)
  have "\<exists>nodeExecution.
           getApprovalNodeExecution ?db (a_NodeExecutionID ?c) = Inr nodeExecution
         \<and> node_executions db'
             = map (\<lambda>n. if ne_ID n = a_NodeExecutionID ?c
                         then n\<lparr>ne_Status := APPROVAL_NODE_EXECUTION_STATUS_REJECTED\<rparr> else n)
                 (node_executions ?db)
         \<and> executions db'
             = map (\<lambda>e. if e_ID e = ne_ExecutionID nodeExecution
                         then e\<lparr>e_Status := EXECUTION_REJECTED\<rparr> else e)
                 (executions ?db)"
    using CreateApproval_rejection_on_success [of ReadCommitted ?db ?c _ db'] run r
    by (simp add: decision_def)
  then show ?thesis
    using run r by (auto simp: ex_defs getApprovalNodeExecution_def)
qed

lemma CreateApproval_quorum_committed_pool_example:
  "distinct (map ne_ID (node_executions
      (two_step_db 2 EXECUTION_IN_PROGRESS APPROVAL_NODE_EXECUTION_STATUS_IN_PROGRESS
         [(decision 1 7 APPROVED)\<lparr>a_ID := 1\<rparr>])))
   \<and> fst (CreateApproval ReadCommitted
          (two_step_db 2 EXECUTION_IN_PROGRESS APPROVAL_NODE_EXECUTION_STATUS_IN_PROGRESS
             [(decision 1 7 APPROVED)\<lparr>a_ID := 1\<rparr>])
          (decision 1 8 APPROVED))
     = Inr ((decision 1 8 APPROVED)\<lparr>a_ID := 2, a_CreateTime := 200\<rparr>)
   \<and> map ne_Status (node_executions (snd (CreateApproval ReadCommitted
          (two_step_db 2 EXECUTION_IN_PROGRESS APPROVAL_NODE_EXECUTION_STATUS_IN_PROGRESS
             [(decision 1 7 APPROVED)\<lparr>a_ID := 1\<rparr>])
          (decision 1 8 APPROVED))))
     = [APPROVAL_NODE_EXECUTION_STATUS_APPROVED, APPROVAL_NODE_EXECUTION_STATUS_IN_PROGRESS]
   \<and> map e_Status (executions (snd (CreateApproval ReadCommitted
          (two_step_db 2 EXECUTION_IN_PROGRESS APPROVAL_NODE_EXECUTION_STATUS_IN_PROGRESS
             [(decision 1 7 APPROVED)\<lparr>a_ID := 1\<rparr>])
          (decision 1 8 APPROVED))))
     = [EXECUTION_IN_PROGRESS]"
proof -
  let ?db = "two_step_db 2 EXECUTION_IN_PROGRESS APPROVAL_NODE_EXECUTION_STATUS_IN_PROGRESS
             [(decision 1 7 APPROVED)\<lparr>a_ID := 1\<rparr>]"
  let ?c = "decision 1 8 APPROVED"
  obtain r db' where run: "CreateApproval ReadCommitted ?db ?c = (r, db')"
    by fastforce
  have r: "r = Inr (?c\<lparr>a_ID := 2, a_CreateTime := 200\<rparr>)"
    and st: "map ne_Status (node_executions db')
       = [APPROVAL_NODE_EXECUTION_STATUS_APPROVED, APPROVAL_NODE_EXECUTION_STATUS_IN_PROGRESS]"
    and ex: "map e_Status (executions db') = [EXECUTION_IN_PROGRESS]"
    and ap: "approvals db' = [(decision 1 7 APPROVED)\<lparr>a_ID := 1\<rparr>, ?c\<lparr>a_ID := 2, a_CreateTime := 200\<rparr>]"
    using run by (auto simp: run_defs ex_defs)
  have dist: "distinct (map ne_ID (node_executions ?db))"
    by (simp add: ex_defs)
  have norej: "\<not> (\<exists>x \<in> set (approvals db').
                     a_NodeExecutionID x = a_NodeExecutionID ?c \<and> a_Status x = REJECTED)"
    by (simp add: ap decision_def)
  have run': "CreateApproval ReadCommitted ?db ?c = (Inr (?c\<lparr>a_ID := 2, a_CreateTime := 200\<rparr>), db')"
    using run r by simp
  note CreateApproval_quorum_committed_pool [OF run' dist norej]
  then show ?thesis
    using run r st ex dist by simp
qed

section \<open>The plan check, beginning an execution, and what recording a decision does not check\<close>

lemmas check_defs = Check_def check_new_execution_def ListApprovalFlowExecutions_def
  ListApprovalFlows_def CreateApprovalFlowExecution_def getApprovalFlowWithNodes_def
  getApprovalNodes_def to_ApprovalNode_def insert_node_execution_def
  getApprovalFlowExecutionWithNodeExecutions_def getApprovalNodeExecutions_def
  getApprovals_def plancheck_parseSchemaChange_def plancheck_detectSensitiveDataChanges_def
  highest_level_def pool_view_def next_id_def Let_def


lemma foldl_insert_node_execution_frame:
  "executions (foldl (insert_node_execution i c ns) tx xs) = executions tx"
  by (induction xs arbitrary: tx) (simp_all add: insert_node_execution_def)

lemma find_fresh_execution:
  "find (\<lambda>e. e_ID e = next_id (map e_ID es)) es = None"
  using next_id_fresh [of _ "map e_ID es"] by (auto simp: find_None_iff)

lemma find_new_execution:
  "find (\<lambda>e. e_ID e = next_id (map e_ID es)) (es @ [c\<lparr>e_ID := next_id (map e_ID es), e_CreateTime := t, e_UpdateTime := t\<rparr>])
   = Some (c\<lparr>e_ID := next_id (map e_ID es), e_CreateTime := t, e_UpdateTime := t\<rparr>)"
proof (rule find_append_new)
  show "\<forall>x\<in>set es. e_ID x \<noteq> next_id (map e_ID es)"
    using next_id_fresh [of _ "map e_ID es"] by auto
  show "e_ID (c\<lparr>e_ID := next_id (map e_ID es), e_CreateTime := t, e_UpdateTime := t\<rparr>) = next_id (map e_ID es)"
    by simp
qed

text \<open>
  C5, as the code has it. \<open>CreateApprovalFlowExecution\<close> fails exactly when the flow
  identifier or the issue identifier is not positive, the level or the status is
  unspecified, the flow does not exist, or the pool cannot read back the execution the open
  transaction has inserted. The flow's enabled flag, its nodes and the executions the issue
  already has are not consulted. A call that succeeds adds one execution row to the ones
  that were there; a call that fails leaves them.
\<close>

theorem CreateApprovalFlowExecution_checks:
  "isl (fst (CreateApprovalFlowExecution vis db create))
     = (e_FlowID create \<le> 0 \<or> e_IssueID create \<le> 0
        \<or> e_SensitivityLevel create = SENSITIVE_DATA_LEVEL_UNSPECIFIED
        \<or> e_Status create = APPROVAL_FLOW_EXECUTION_STATUS_UNSPECIFIED
        \<or> find (\<lambda>f. af_ID f = e_FlowID create) (flows db) = None
        \<or> vis = ReadCommitted)
   \<and> executions (snd (CreateApprovalFlowExecution vis db create))
     = (if isl (fst (CreateApprovalFlowExecution vis db create)) then executions db
        else executions db @
             [create\<lparr>e_ID := next_id (map e_ID (executions db)),
                     e_CreateTime := now db, e_UpdateTime := now db\<rparr>])"
proof (cases vis)
  case ReadCommitted
  then show ?thesis
    by (auto simp: CreateApprovalFlowExecution_def getApprovalFlowWithNodes_def pool_view_def
        getApprovalFlowExecutionWithNodeExecutions_def find_fresh_execution Let_def
        split: option.splits)
next
  case ReadUncommitted
  then show ?thesis
    by (auto simp: CreateApprovalFlowExecution_def getApprovalFlowWithNodes_def pool_view_def
        getApprovalFlowExecutionWithNodeExecutions_def foldl_insert_node_execution_frame
        find_new_execution Let_def
        split: option.splits)
qed

theorem CreateApprovalFlowExecution_checks_witness:
  "\<not> isl (fst (CreateApprovalFlowExecution ReadUncommitted medium_only_db
              (begin_request\<lparr>e_SensitivityLevel := SENSITIVE_DATA_LEVEL_MEDIUM\<rparr>)))
   \<and> map (\<lambda>e. (e_ID e, e_FlowID e, e_IssueID e, e_Status e))
        (executions (snd (CreateApprovalFlowExecution ReadUncommitted medium_only_db
              (begin_request\<lparr>e_SensitivityLevel := SENSITIVE_DATA_LEVEL_MEDIUM\<rparr>))))
     = [(1, 1, 5, EXECUTION_IN_PROGRESS)]
   \<and> isl (fst (CreateApprovalFlowExecution ReadUncommitted medium_only_db
              (begin_request\<lparr>e_FlowID := 2\<rparr>)))"
  using CreateApprovalFlowExecution_checks [of ReadUncommitted medium_only_db
          "begin_request\<lparr>e_SensitivityLevel := SENSITIVE_DATA_LEVEL_MEDIUM\<rparr>"]
        CreateApprovalFlowExecution_checks [of ReadUncommitted medium_only_db
          "begin_request\<lparr>e_FlowID := 2\<rparr>"]
  by (simp add: medium_only_db_def begin_request_def next_id_def)

text \<open>
  C5 as stated fails. With a pool that sees the transaction's rows, beginning an execution
  for an issue that already has one IN_PROGRESS succeeds and leaves two non-terminal
  executions for the issue; beginning one for a disabled flow without nodes succeeds too and
  creates no node execution. With a pool that does not, both calls fail, with the error of
  the read-back, which names neither a duplicate nor the flow.
\<close>

theorem beginExecution_unchecked_counterexample:
  "\<not> isl (fst (CreateApprovalFlowExecution ReadUncommitted
              (two_step_db 2 EXECUTION_IN_PROGRESS APPROVAL_NODE_EXECUTION_STATUS_IN_PROGRESS [])
              begin_request))
   \<and> map (\<lambda>e. (e_ID e, e_IssueID e, e_Status e))
        (executions (snd (CreateApprovalFlowExecution ReadUncommitted
              (two_step_db 2 EXECUTION_IN_PROGRESS APPROVAL_NODE_EXECUTION_STATUS_IN_PROGRESS [])
              begin_request)))
     = [(1, 5, EXECUTION_IN_PROGRESS), (2, 5, EXECUTION_IN_PROGRESS)]
   \<and> \<not> isl (fst (CreateApprovalFlowExecution ReadUncommitted disabled_empty_db begin_request))
   \<and> node_executions (snd (CreateApprovalFlowExecution ReadUncommitted disabled_empty_db begin_request)) = []
   \<and> fst (CreateApprovalFlowExecution ReadCommitted
              (two_step_db 2 EXECUTION_IN_PROGRESS APPROVAL_NODE_EXECUTION_STATUS_IN_PROGRESS [])
              begin_request) = Inl RetrieveNewExecutionFailed
   \<and> fst (CreateApprovalFlowExecution ReadCommitted disabled_empty_db begin_request)
       = Inl RetrieveNewExecutionFailed"
  by (simp add: check_defs ex_defs disabled_empty_db_def begin_request_def)


lemma advance_execution_approvals:
  "approvals (snd (advance_execution tx ne st new)) = approvals tx"
  by (simp add: advance_execution_def set_node_execution_status_def set_execution_status_def
      Let_def split: option.splits)

lemma advance_execution_Inr:
  "fst (advance_execution tx ne st new) = Inr a \<Longrightarrow> a = new"
  by (auto simp: advance_execution_def Let_def split: option.splits if_splits)

lemma settle_node_execution_approvals:
  "approvals (snd (settle_node_execution tx1 c ne stored new)) = approvals tx1"
  by (simp add: settle_node_execution_def advance_execution_approvals
      set_node_execution_status_def Let_def split: prod.splits option.splits)

lemma settle_node_execution_Inr:
  "fst (settle_node_execution tx1 c ne stored new) = Inr a \<Longrightarrow> a = new"
  by (auto simp: settle_node_execution_def Let_def split: prod.splits option.splits
      dest: advance_execution_Inr)

lemma CreateApproval_stores:
  assumes "CreateApproval vis db create = (Inr a, db')"
  shows "a = create\<lparr>a_ID := next_id (map a_ID (approvals db)), a_CreateTime := now db\<rparr>
         \<and> approvals db' = approvals db @ [a]"
proof -
  from CreateApproval_Inr_found [OF assms]
  obtain ne where v: "0 < a_NodeExecutionID create" "0 < a_UserID create"
      "a_Status create \<noteq> APPROVAL_STATUS_UNSPECIFIED"
    and ne: "getApprovalNodeExecution db (a_NodeExecutionID create) = Inr ne"
    by blast
  let ?new = "create\<lparr>a_ID := next_id (map a_ID (approvals db)), a_CreateTime := now db\<rparr>"
  let ?tx1 = "db\<lparr>approvals := approvals db @ [?new]\<rparr>"
  let ?stored = "getApprovals (pool_view vis db ?tx1) (a_NodeExecutionID create)"
  have s: "settle_node_execution ?tx1 create ne ?stored ?new = (Inr a, db')"
    using CreateApproval_found [OF v ne, of vis] assms by simp
  have a: "a = ?new"
    using settle_node_execution_Inr [of ?tx1 create ne ?stored ?new a] s by simp
  have "approvals db' = approvals ?tx1"
    using settle_node_execution_approvals [of ?tx1 create ne ?stored ?new] s by simp
  then have "approvals db' = approvals db @ [a]"
    using a by simp
  with a show ?thesis by simp
qed





lemma next_node_id_relabel:
  "next_node_id (tx\<lparr>executions := map (\<lambda>e. e\<lparr>e_Status := st e\<rparr>) (executions tx)\<rparr>) ne
   = next_node_id tx ne"
proof -
  have "find (\<lambda>e. e_ID e = ne_ExecutionID ne) (map (\<lambda>e. e\<lparr>e_Status := st e\<rparr>) (executions tx))
        = map_option (\<lambda>e. e\<lparr>e_Status := st e\<rparr>) (find (\<lambda>e. e_ID e = ne_ExecutionID ne) (executions tx))"
    by (rule find_map_preserve) simp
  then show ?thesis
    by (cases "find (\<lambda>e. e_ID e = ne_ExecutionID ne) (executions tx)")
       (simp_all add: next_node_id_def)
qed

lemma next_node_id_set_node_execution_status:
  "next_node_id (set_node_execution_status i s tx) ne = next_node_id tx ne"
  by (rule next_node_id_frame) (simp_all add: set_node_execution_status_def)

lemma set_node_execution_status_relabel:
  "set_node_execution_status i s (tx\<lparr>executions := es\<rparr>)
   = (set_node_execution_status i s tx)\<lparr>executions := es\<rparr>"
  by (simp add: set_node_execution_status_def)

lemma advance_execution_relabel:
  "fst (advance_execution (tx\<lparr>executions := map (\<lambda>e. e\<lparr>e_Status := st e\<rparr>) (executions tx)\<rparr>) ne s new)
     = fst (advance_execution tx ne s new)
   \<and> approvals (snd (advance_execution (tx\<lparr>executions := map (\<lambda>e. e\<lparr>e_Status := st e\<rparr>) (executions tx)\<rparr>) ne s new))
     = approvals (snd (advance_execution tx ne s new))
   \<and> node_executions (snd (advance_execution (tx\<lparr>executions := map (\<lambda>e. e\<lparr>e_Status := st e\<rparr>) (executions tx)\<rparr>) ne s new))
     = node_executions (snd (advance_execution tx ne s new))"
  by (simp add: advance_execution_def next_node_id_relabel set_node_execution_status_def
      set_execution_status_def Let_def split: option.splits)

lemma settle_node_execution_relabel:
  "fst (settle_node_execution (tx\<lparr>executions := map (\<lambda>e. e\<lparr>e_Status := st e\<rparr>) (executions tx)\<rparr>) c ne stored new)
     = fst (settle_node_execution tx c ne stored new)
   \<and> approvals (snd (settle_node_execution (tx\<lparr>executions := map (\<lambda>e. e\<lparr>e_Status := st e\<rparr>) (executions tx)\<rparr>) c ne stored new))
     = approvals (snd (settle_node_execution tx c ne stored new))
   \<and> node_executions (snd (settle_node_execution (tx\<lparr>executions := map (\<lambda>e. e\<lparr>e_Status := st e\<rparr>) (executions tx)\<rparr>) c ne stored new))
     = node_executions (snd (settle_node_execution tx c ne stored new))"
proof (cases "find (\<lambda>r. an_id r = ne_NodeID ne) (nodes tx)")
  case None
  then show ?thesis
    by (simp add: settle_node_execution_def split: prod.splits)
next
  case (Some node)
  obtain p q where pq: "count_decisions (stored @ [new]) = (p, q)"
    by fastforce
  let ?s = "decide_node_status p q (an_required_approvals node)"
  let ?tx2 = "set_node_execution_status (a_NodeExecutionID c) ?s tx"
  have e: "executions ?tx2 = executions tx"
    by (simp add: set_node_execution_status_def)
  have "settle_node_execution (tx\<lparr>executions := map (\<lambda>e. e\<lparr>e_Status := st e\<rparr>) (executions tx)\<rparr>) c ne stored new
        = advance_execution (?tx2\<lparr>executions := map (\<lambda>e. e\<lparr>e_Status := st e\<rparr>) (executions ?tx2)\<rparr>) ne ?s new"
    using Some pq by (simp add: settle_node_execution_def set_node_execution_status_relabel e Let_def)
  moreover have "settle_node_execution tx c ne stored new = advance_execution ?tx2 ne ?s new"
    using Some pq by (simp add: settle_node_execution_def Let_def)
  ultimately show ?thesis
    using advance_execution_relabel [where tx = ?tx2 and st = st and ne = ne and s = ?s and new = new]
    by simp
qed

lemma DB_update_swap:
  "d\<lparr>executions := es, approvals := as\<rparr> = d\<lparr>approvals := as, executions := es\<rparr>"
  by simp

lemma getApprovals_frame:
  "approvals tx = approvals db \<Longrightarrow> getApprovals tx i = getApprovals db i"
  by (simp add: getApprovals_def)

text \<open>
  C7, as the code has it. \<open>CreateApproval\<close> does not read the status of any execution:
  on two databases that differ only in the statuses of their executions it returns the same
  result and leaves the same approval rows and the same node executions. And
  \<open>UpdateApprovalFlowExecution\<close> overwrites the status of every execution that has the
  requested positive identifier, whatever its status was.
\<close>

theorem CreateApproval_ignores_execution_status:
  "fst (CreateApproval vis (db\<lparr>executions := map (\<lambda>e. e\<lparr>e_Status := st e\<rparr>) (executions db)\<rparr>) create)
     = fst (CreateApproval vis db create)
   \<and> approvals (snd (CreateApproval vis
        (db\<lparr>executions := map (\<lambda>e. e\<lparr>e_Status := st e\<rparr>) (executions db)\<rparr>) create))
     = approvals (snd (CreateApproval vis db create))
   \<and> node_executions (snd (CreateApproval vis
        (db\<lparr>executions := map (\<lambda>e. e\<lparr>e_Status := st e\<rparr>) (executions db)\<rparr>) create))
     = node_executions (snd (CreateApproval vis db create))
   \<and> map e_Status (executions (snd (UpdateApprovalFlowExecution db update)))
     = map (\<lambda>e. if 0 < e_ID update \<and> e_ID e = e_ID update then e_Status update else e_Status e)
         (executions db)"
proof -
  let ?R = "\<lambda>d. d\<lparr>executions := map (\<lambda>e. e\<lparr>e_Status := st e\<rparr>) (executions d)\<rparr>"
  let ?new = "create\<lparr>a_ID := next_id (map a_ID (approvals db)), a_CreateTime := now db\<rparr>"
  let ?tx1 = "db\<lparr>approvals := approvals db @ [?new]\<rparr>"
  have upd: "map e_Status (executions (snd (UpdateApprovalFlowExecution db update)))
     = map (\<lambda>e. if 0 < e_ID update \<and> e_ID e = e_ID update then e_Status update else e_Status e)
         (executions db)"
  proof (cases "find (\<lambda>e. e_ID e = e_ID update) (executions db)")
    case None
    then have ne: "\<forall>e \<in> set (executions db). e_ID e \<noteq> e_ID update"
      by (auto simp: find_None_iff)
    have "map (\<lambda>e. if 0 < e_ID update \<and> e_ID e = e_ID update then e_Status update else e_Status e)
         (executions db) = map e_Status (executions db)"
      by (rule map_cong) (use ne in auto)
    moreover have "snd (UpdateApprovalFlowExecution db update) = db"
      using None
      by (simp add: UpdateApprovalFlowExecution_def getApprovalFlowExecutionWithNodeExecutions_def)
    ultimately show ?thesis by (simp only:)
  next
    case (Some e)
    then show ?thesis
      by (auto simp: UpdateApprovalFlowExecution_def getApprovalFlowExecutionWithNodeExecutions_def
          Let_def comp_def intro: map_cong)
  qed
  have run: "fst (CreateApproval vis (?R db) create) = fst (CreateApproval vis db create)
   \<and> approvals (snd (CreateApproval vis (?R db) create)) = approvals (snd (CreateApproval vis db create))
   \<and> node_executions (snd (CreateApproval vis (?R db) create))
       = node_executions (snd (CreateApproval vis db create))"
  proof (cases "0 < a_NodeExecutionID create \<and> 0 < a_UserID create
                  \<and> a_Status create \<noteq> APPROVAL_STATUS_UNSPECIFIED")
    case False
    then show ?thesis by (auto simp: CreateApproval_def)
  next
    case v: True
    show ?thesis
    proof (cases "getApprovalNodeExecution db (a_NodeExecutionID create)")
      case (Inl err)
      then have "getApprovalNodeExecution (?R db) (a_NodeExecutionID create) = Inl err"
        by (simp add: getApprovalNodeExecution_def)
      then show ?thesis using Inl v by (simp add: CreateApproval_def)
    next
      case (Inr ne)
      then have neR: "getApprovalNodeExecution (?R db) (a_NodeExecutionID create) = Inr ne"
        by (simp add: getApprovalNodeExecution_def)
      have a: "CreateApproval vis (?R db) create
            = settle_node_execution (?R ?tx1) create ne
                (getApprovals (pool_view vis db ?tx1) (a_NodeExecutionID create)) ?new"
        using CreateApproval_found [of create "?R db" ne vis] v neR
        by (cases vis) (simp_all add: pool_view_def getApprovals_def DB_update_swap)
      have b: "CreateApproval vis db create
            = settle_node_execution ?tx1 create ne
                (getApprovals (pool_view vis db ?tx1) (a_NodeExecutionID create)) ?new"
        using CreateApproval_found [of create db ne vis] v Inr by simp
      show ?thesis
        using settle_node_execution_relabel [where tx = ?tx1 and st = st and c = create and ne = ne
            and stored = "getApprovals (pool_view vis db ?tx1) (a_NodeExecutionID create)"
            and new = ?new]
        by (simp only: a b)
    qed
  qed
  show ?thesis using run upd by simp
qed


theorem CreateApproval_ignores_execution_status_witness:
  "fst (CreateApproval ReadCommitted
          (two_step_db 2 EXECUTION_REJECTED APPROVAL_NODE_EXECUTION_STATUS_IN_PROGRESS [])
          (decision 1 7 APPROVED))
     = fst (CreateApproval ReadCommitted
          (two_step_db 2 EXECUTION_IN_PROGRESS APPROVAL_NODE_EXECUTION_STATUS_IN_PROGRESS [])
          (decision 1 7 APPROVED))
   \<and> approvals (snd (CreateApproval ReadCommitted
          (two_step_db 2 EXECUTION_REJECTED APPROVAL_NODE_EXECUTION_STATUS_IN_PROGRESS [])
          (decision 1 7 APPROVED)))
     = [(decision 1 7 APPROVED)\<lparr>a_ID := 1, a_CreateTime := 200\<rparr>]"
proof -
  let ?db = "two_step_db 2 EXECUTION_IN_PROGRESS APPROVAL_NODE_EXECUTION_STATUS_IN_PROGRESS []"
  have "?db\<lparr>executions := map (\<lambda>e. e\<lparr>e_Status := EXECUTION_REJECTED\<rparr>) (executions ?db)\<rparr>
        = two_step_db 2 EXECUTION_REJECTED APPROVAL_NODE_EXECUTION_STATUS_IN_PROGRESS []"
    by (simp add: two_step_db_def)
  with CreateApproval_ignores_execution_status
         [where vis = ReadCommitted and db = ?db and st = "\<lambda>e. EXECUTION_REJECTED"
            and create = "decision 1 7 APPROVED"]
  have "fst (CreateApproval ReadCommitted
          (two_step_db 2 EXECUTION_REJECTED APPROVAL_NODE_EXECUTION_STATUS_IN_PROGRESS [])
          (decision 1 7 APPROVED))
        = fst (CreateApproval ReadCommitted ?db (decision 1 7 APPROVED))
      \<and> approvals (snd (CreateApproval ReadCommitted
          (two_step_db 2 EXECUTION_REJECTED APPROVAL_NODE_EXECUTION_STATUS_IN_PROGRESS [])
          (decision 1 7 APPROVED)))
        = approvals (snd (CreateApproval ReadCommitted ?db (decision 1 7 APPROVED)))"
    by simp
  moreover have "approvals (snd (CreateApproval ReadCommitted ?db (decision 1 7 APPROVED)))
        = [(decision 1 7 APPROVED)\<lparr>a_ID := 1, a_CreateTime := 200\<rparr>]"
    by (simp add: run_defs ex_defs)
  ultimately show ?thesis by simp
qed

text \<open>
  C7 as stated fails. The execution is REJECTED, its first node execution REJECTED.
  A decision on the second node execution is accepted: an approval row is appended, the
  node execution becomes APPROVED and the execution APPROVED. An update of the REJECTED
  execution to IN_PROGRESS is accepted as well.
\<close>

theorem terminal_execution_mutated_counterexample:
  "fst (CreateApproval ReadCommitted
          (two_step_db 2 EXECUTION_REJECTED APPROVAL_NODE_EXECUTION_STATUS_REJECTED
             [(decision 1 7 APPROVED)\<lparr>a_ID := 1\<rparr>, (decision 1 8 REJECTED)\<lparr>a_ID := 2\<rparr>])
          (decision 2 9 APPROVED))
     = Inr ((decision 2 9 APPROVED)\<lparr>a_ID := 3, a_CreateTime := 200\<rparr>)
   \<and> map e_Status (executions (snd (CreateApproval ReadCommitted
          (two_step_db 2 EXECUTION_REJECTED APPROVAL_NODE_EXECUTION_STATUS_REJECTED
             [(decision 1 7 APPROVED)\<lparr>a_ID := 1\<rparr>, (decision 1 8 REJECTED)\<lparr>a_ID := 2\<rparr>])
          (decision 2 9 APPROVED))))
     = [EXECUTION_APPROVED]
   \<and> map ne_Status (node_executions (snd (CreateApproval ReadCommitted
          (two_step_db 2 EXECUTION_REJECTED APPROVAL_NODE_EXECUTION_STATUS_REJECTED
             [(decision 1 7 APPROVED)\<lparr>a_ID := 1\<rparr>, (decision 1 8 REJECTED)\<lparr>a_ID := 2\<rparr>])
          (decision 2 9 APPROVED))))
     = [APPROVAL_NODE_EXECUTION_STATUS_REJECTED, APPROVAL_NODE_EXECUTION_STATUS_APPROVED]
   \<and> length (approvals (snd (CreateApproval ReadCommitted
          (two_step_db 2 EXECUTION_REJECTED APPROVAL_NODE_EXECUTION_STATUS_REJECTED
             [(decision 1 7 APPROVED)\<lparr>a_ID := 1\<rparr>, (decision 1 8 REJECTED)\<lparr>a_ID := 2\<rparr>])
          (decision 2 9 APPROVED)))) = 3
   \<and> map e_Status (executions (snd (CreateApproval ReadUncommitted
          (two_step_db 2 EXECUTION_REJECTED APPROVAL_NODE_EXECUTION_STATUS_REJECTED
             [(decision 1 7 APPROVED)\<lparr>a_ID := 1\<rparr>, (decision 1 8 REJECTED)\<lparr>a_ID := 2\<rparr>])
          (decision 2 9 APPROVED))))
     = [EXECUTION_APPROVED]
   \<and> map e_Status (executions (snd (UpdateApprovalFlowExecution
          (two_step_db 2 EXECUTION_REJECTED APPROVAL_NODE_EXECUTION_STATUS_REJECTED
             [(decision 1 7 APPROVED)\<lparr>a_ID := 1\<rparr>, (decision 1 8 REJECTED)\<lparr>a_ID := 2\<rparr>])
          (begin_request\<lparr>e_ID := 1\<rparr>))))
     = [EXECUTION_IN_PROGRESS]"
  by (simp add: run_defs ex_defs UpdateApprovalFlowExecution_def
      getApprovalFlowExecutionWithNodeExecutions_def begin_request_def)

lemma advance_execution_succeeds:
  assumes "find (\<lambda>n. ne_ExecutionID n = ne_ExecutionID ne \<and> ne_NodeID n = next_node_id tx ne)
             (node_executions tx) \<noteq> None \<or> next_node_id tx ne \<le> 0"
  shows "\<not> isl (fst (advance_execution tx ne s new))"
  using assms
  by (auto simp: advance_execution_def Let_def split: option.splits)

lemma find_set_node_execution_status:
  "find (\<lambda>n. ne_ExecutionID n = e \<and> ne_NodeID n = k) (node_executions (set_node_execution_status i s tx))
   = map_option (\<lambda>n. if ne_ID n = i then n\<lparr>ne_Status := s\<rparr> else n)
       (find (\<lambda>n. ne_ExecutionID n = e \<and> ne_NodeID n = k) (node_executions tx))"
  unfolding set_node_execution_status_def
  by (simp add: find_map_preserve)

lemma settle_node_execution_errors:
  "fst (settle_node_execution tx c ne stored new) = Inl err \<Longrightarrow>
     err = GetRequiredApprovalsFailed \<or> err = GetNextNodeExecutionFailed"
  by (auto simp: settle_node_execution_def advance_execution_def Let_def
      split: prod.splits option.splits if_splits)

text \<open>
  C8, as the code has it. \<open>CreateApproval\<close> takes no position. The only errors it
  returns are those of a non-positive node execution or user identifier, an unspecified
  decision, a missing node execution, a missing node, and a missing node execution for the
  next node; when it succeeds the decision is stored. With valid arguments, an existing node
  execution whose node exists, and a node execution for the next node whenever the flow has
  one, it succeeds, whatever the statuses of the node execution and of the execution are.
\<close>

theorem CreateApproval_refusals:
  "(case fst (CreateApproval vis db create) of
      Inl err \<Rightarrow> err \<in> {NodeExecutionIDRequired, UserIDRequired, StatusRequired,
                        NodeExecutionNotFound, GetRequiredApprovalsFailed,
                        GetNextNodeExecutionFailed}
    | Inr a \<Rightarrow> approvals (snd (CreateApproval vis db create)) = approvals db @ [a])
   \<and> (0 < a_NodeExecutionID create \<and> 0 < a_UserID create
        \<and> a_Status create \<noteq> APPROVAL_STATUS_UNSPECIFIED
        \<and> getApprovalNodeExecution db (a_NodeExecutionID create) = Inr nodeExecution
        \<and> find (\<lambda>r. an_id r = ne_NodeID nodeExecution) (nodes db) \<noteq> None
        \<and> (find (\<lambda>n. ne_ExecutionID n = ne_ExecutionID nodeExecution
                        \<and> ne_NodeID n = next_node_id db nodeExecution) (node_executions db) \<noteq> None
            \<or> next_node_id db nodeExecution \<le> 0)
      \<longrightarrow> \<not> isl (fst (CreateApproval vis db create)))"
proof
  show "case fst (CreateApproval vis db create) of
      Inl err \<Rightarrow> err \<in> {NodeExecutionIDRequired, UserIDRequired, StatusRequired,
                        NodeExecutionNotFound, GetRequiredApprovalsFailed,
                        GetNextNodeExecutionFailed}
    | Inr a \<Rightarrow> approvals (snd (CreateApproval vis db create)) = approvals db @ [a]"
  proof (cases "fst (CreateApproval vis db create)")
    case (Inr a)
    then have "CreateApproval vis db create = (Inr a, snd (CreateApproval vis db create))"
      by (metis prod.collapse)
    from CreateApproval_stores [OF this] Inr show ?thesis by simp
  next
    case (Inl err)
    show ?thesis
    proof (cases "0 < a_NodeExecutionID create \<and> 0 < a_UserID create
                  \<and> a_Status create \<noteq> APPROVAL_STATUS_UNSPECIFIED")
      case False
      then show ?thesis using Inl by (auto simp: CreateApproval_def split: if_splits)
    next
      case v: True
      show ?thesis
      proof (cases "getApprovalNodeExecution db (a_NodeExecutionID create)")
        case l: (Inl e)
        then have "e = NodeExecutionNotFound"
          by (auto simp: getApprovalNodeExecution_def split: option.splits)
        then show ?thesis using Inl v l by (simp add: CreateApproval_def)
      next
        case (Inr ne)
        from CreateApproval_found [of create db ne vis] v Inr Inl
        obtain tx stored new where "fst (settle_node_execution tx create ne stored new) = Inl err"
          by auto
        from settle_node_execution_errors [OF this] Inl show ?thesis by auto
      qed
    qed
  qed
  show "0 < a_NodeExecutionID create \<and> 0 < a_UserID create
        \<and> a_Status create \<noteq> APPROVAL_STATUS_UNSPECIFIED
        \<and> getApprovalNodeExecution db (a_NodeExecutionID create) = Inr nodeExecution
        \<and> find (\<lambda>r. an_id r = ne_NodeID nodeExecution) (nodes db) \<noteq> None
        \<and> (find (\<lambda>n. ne_ExecutionID n = ne_ExecutionID nodeExecution
                        \<and> ne_NodeID n = next_node_id db nodeExecution) (node_executions db) \<noteq> None
            \<or> next_node_id db nodeExecution \<le> 0)
      \<longrightarrow> \<not> isl (fst (CreateApproval vis db create))"
  proof
    assume h: "0 < a_NodeExecutionID create \<and> 0 < a_UserID create
        \<and> a_Status create \<noteq> APPROVAL_STATUS_UNSPECIFIED
        \<and> getApprovalNodeExecution db (a_NodeExecutionID create) = Inr nodeExecution
        \<and> find (\<lambda>r. an_id r = ne_NodeID nodeExecution) (nodes db) \<noteq> None
        \<and> (find (\<lambda>n. ne_ExecutionID n = ne_ExecutionID nodeExecution
                        \<and> ne_NodeID n = next_node_id db nodeExecution) (node_executions db) \<noteq> None
            \<or> next_node_id db nodeExecution \<le> 0)"
    let ?new = "create\<lparr>a_ID := next_id (map a_ID (approvals db)), a_CreateTime := now db\<rparr>"
    let ?tx1 = "db\<lparr>approvals := approvals db @ [?new]\<rparr>"
    let ?stored = "getApprovals (pool_view vis db ?tx1) (a_NodeExecutionID create)"
    from h obtain node where node: "find (\<lambda>r. an_id r = ne_NodeID nodeExecution) (nodes db) = Some node"
      by auto
    obtain p q where pq: "count_decisions (?stored @ [?new]) = (p, q)"
      by fastforce
    let ?s = "decide_node_status p q (an_required_approvals node)"
    let ?tx2 = "set_node_execution_status (a_NodeExecutionID create) ?s ?tx1"
    have run: "CreateApproval vis db create = advance_execution ?tx2 nodeExecution ?s ?new"
      using CreateApproval_found [of create db nodeExecution vis] h node pq
      by (simp add: settle_node_execution_def Let_def)
    have nxt: "next_node_id ?tx2 nodeExecution = next_node_id db nodeExecution"
      by (rule next_node_id_frame) (simp_all add: set_node_execution_status_def)
    have nx: "find (\<lambda>n. ne_ExecutionID n = ne_ExecutionID nodeExecution
                      \<and> ne_NodeID n = next_node_id ?tx2 nodeExecution) (node_executions ?tx2) \<noteq> None
          \<or> next_node_id ?tx2 nodeExecution \<le> 0"
      using h by (auto simp: nxt find_set_node_execution_status)
    have "\<not> isl (fst (advance_execution ?tx2 nodeExecution ?s ?new))"
      using nx by (rule advance_execution_succeeds)
    then show "\<not> isl (fst (CreateApproval vis db create))"
      by (simp add: run)
  qed
qed


theorem CreateApproval_refusals_witness:
  "\<not> isl (fst (CreateApproval ReadCommitted
          (two_step_db 2 EXECUTION_IN_PROGRESS APPROVAL_NODE_EXECUTION_STATUS_IN_PROGRESS [])
          (decision 2 9 APPROVED)))
   \<and> approvals (snd (CreateApproval ReadCommitted
          (two_step_db 2 EXECUTION_IN_PROGRESS APPROVAL_NODE_EXECUTION_STATUS_IN_PROGRESS [])
          (decision 2 9 APPROVED)))
     = [(decision 2 9 APPROVED)\<lparr>a_ID := 1, a_CreateTime := 200\<rparr>]"
proof -
  let ?db = "two_step_db 2 EXECUTION_IN_PROGRESS APPROVAL_NODE_EXECUTION_STATUS_IN_PROGRESS []"
  let ?c = "decision 2 9 APPROVED"
  let ?ne = "\<lparr>ne_ID = 2, ne_ExecutionID = 1, ne_NodeID = 2,
          ne_Status = APPROVAL_NODE_EXECUTION_STATUS_PENDING,
          ne_CreatorID = 9, ne_UpdaterID = 9, ne_CreateTime = 100, ne_UpdateTime = 100\<rparr>"
  have h: "0 < a_NodeExecutionID ?c \<and> 0 < a_UserID ?c
        \<and> a_Status ?c \<noteq> APPROVAL_STATUS_UNSPECIFIED
        \<and> getApprovalNodeExecution ?db (a_NodeExecutionID ?c) = Inr ?ne
        \<and> find (\<lambda>r. an_id r = ne_NodeID ?ne) (nodes ?db) \<noteq> None
        \<and> (find (\<lambda>n. ne_ExecutionID n = ne_ExecutionID ?ne
                        \<and> ne_NodeID n = next_node_id ?db ?ne) (node_executions ?db) \<noteq> None
            \<or> next_node_id ?db ?ne \<le> 0)"
    by (simp add: ex_defs getApprovalNodeExecution_def next_node_id_def)
  have ok: "\<not> isl (fst (CreateApproval ReadCommitted ?db ?c))"
    using CreateApproval_refusals [of ReadCommitted ?db ?c ?ne] h by blast
  then obtain a where a: "fst (CreateApproval ReadCommitted ?db ?c) = Inr a"
    by (cases "fst (CreateApproval ReadCommitted ?db ?c)") auto
  then have "approvals (snd (CreateApproval ReadCommitted ?db ?c)) = approvals ?db @ [a]"
    using CreateApproval_refusals [of ReadCommitted ?db ?c ?ne] by simp
  moreover have "a = ?c\<lparr>a_ID := 1, a_CreateTime := 200\<rparr>"
    using a by (simp add: run_defs ex_defs)
  ultimately show ?thesis
    using ok by (simp add: two_step_db_def)
qed

text \<open>
  C8 as stated fails. While the first node execution is IN_PROGRESS, a decision on the
  second, PENDING, is accepted and counted: the second node execution becomes APPROVED and,
  being the last, the execution APPROVED. A REJECTED decision on a node execution that is
  already APPROVED is accepted too and rejects it and the execution.
\<close>

theorem decision_off_position_counterexample:
  "fst (CreateApproval ReadCommitted
          (two_step_db 2 EXECUTION_IN_PROGRESS APPROVAL_NODE_EXECUTION_STATUS_IN_PROGRESS [])
          (decision 2 9 APPROVED))
     = Inr ((decision 2 9 APPROVED)\<lparr>a_ID := 1, a_CreateTime := 200\<rparr>)
   \<and> map ne_Status (node_executions (snd (CreateApproval ReadCommitted
          (two_step_db 2 EXECUTION_IN_PROGRESS APPROVAL_NODE_EXECUTION_STATUS_IN_PROGRESS [])
          (decision 2 9 APPROVED))))
     = [APPROVAL_NODE_EXECUTION_STATUS_IN_PROGRESS, APPROVAL_NODE_EXECUTION_STATUS_APPROVED]
   \<and> map e_Status (executions (snd (CreateApproval ReadCommitted
          (two_step_db 2 EXECUTION_IN_PROGRESS APPROVAL_NODE_EXECUTION_STATUS_IN_PROGRESS [])
          (decision 2 9 APPROVED))))
     = [EXECUTION_APPROVED]
   \<and> map ne_Status (node_executions (snd (CreateApproval ReadUncommitted
          (two_step_db 2 EXECUTION_IN_PROGRESS APPROVAL_NODE_EXECUTION_STATUS_IN_PROGRESS [])
          (decision 2 9 APPROVED))))
     = [APPROVAL_NODE_EXECUTION_STATUS_IN_PROGRESS, APPROVAL_NODE_EXECUTION_STATUS_APPROVED]
   \<and> map e_Status (executions (snd (CreateApproval ReadUncommitted
          (two_step_db 2 EXECUTION_IN_PROGRESS APPROVAL_NODE_EXECUTION_STATUS_IN_PROGRESS [])
          (decision 2 9 APPROVED))))
     = [EXECUTION_APPROVED]
   \<and> map ne_Status (node_executions (snd (CreateApproval ReadCommitted
          (two_step_db 1 EXECUTION_IN_PROGRESS APPROVAL_NODE_EXECUTION_STATUS_APPROVED
             [(decision 1 7 APPROVED)\<lparr>a_ID := 1\<rparr>])
          (decision 1 8 REJECTED))))
     = [APPROVAL_NODE_EXECUTION_STATUS_REJECTED, APPROVAL_NODE_EXECUTION_STATUS_PENDING]
   \<and> map e_Status (executions (snd (CreateApproval ReadCommitted
          (two_step_db 1 EXECUTION_IN_PROGRESS APPROVAL_NODE_EXECUTION_STATUS_APPROVED
             [(decision 1 7 APPROVED)\<lparr>a_ID := 1\<rparr>])
          (decision 1 8 REJECTED))))
     = [EXECUTION_REJECTED]"
  by (simp add: run_defs ex_defs)

section \<open>The plan check on an issue that has an execution\<close>







section \<open>Flow selection\<close>












section \<open>Decisions end to end\<close>

lemma CreateApprovalFlowExecution_committed_pool_fails:
  "\<exists>err. CreateApprovalFlowExecution ReadCommitted db create = (Inl err, db)"
  by (auto simp: CreateApprovalFlowExecution_def getApprovalFlowWithNodes_def pool_view_def
        getApprovalFlowExecutionWithNodeExecutions_def find_fresh_execution Let_def
        split: option.splits)

lemma CreateApproval_without_node_execution:
  "node_executions db = [] \<Longrightarrow> \<exists>err. CreateApproval vis db create = (Inl err, db)"
  by (simp add: CreateApproval_def getApprovalNodeExecution_def)

text \<open>
  No execution is ever begun on a pool that reads committed rows only, and without node
  executions no decision is accepted; the executions that decisions are recorded on exist
  only where the pool sees the rows of the open transaction. The two runs below start from
  a project without executions and use the store's own operations.
\<close>

text \<open>
  C3 at its failing input. The plan of issue 5 is checked and an execution of the
  three-node flow begins. A REJECTED decision on the first node execution then rejects the
  node execution and the execution and leaves the other two PENDING. But when the flow is
  deleted first, which removes its nodes and leaves the execution and its node executions,
  the same call fails at the read of the node's \<open>required_approvals\<close>. That read declares
  its own \<open>err\<close>, so the deferred function commits: the REJECTED decision is stored, the
  node execution is still IN_PROGRESS and the execution still IN_PROGRESS, and the plan
  check goes on reporting an approval in progress. The behaviour of the pool makes no
  difference to this call.
\<close>

theorem rejected_decision_committed_on_error:
  "fst (Check ReadUncommitted (fresh_db 2) plan5) = Some (ApprovalFlowCreated 1)
   \<and> map (\<lambda>n. (ne_ID n, ne_NodeID n, ne_Status n)) (node_executions (begun_db 2))
     = [(1, 1, APPROVAL_NODE_EXECUTION_STATUS_IN_PROGRESS),
        (2, 2, APPROVAL_NODE_EXECUTION_STATUS_PENDING),
        (3, 3, APPROVAL_NODE_EXECUTION_STATUS_PENDING)]
   \<and> fst (CreateApproval ReadUncommitted (begun_db 2) (decision 1 8 REJECTED))
     = Inr ((decision 1 8 REJECTED)\<lparr>a_ID := 1, a_CreateTime := 100\<rparr>)
   \<and> map ne_Status (node_executions (snd (CreateApproval ReadUncommitted (begun_db 2) (decision 1 8 REJECTED))))
     = [APPROVAL_NODE_EXECUTION_STATUS_REJECTED, APPROVAL_NODE_EXECUTION_STATUS_PENDING,
        APPROVAL_NODE_EXECUTION_STATUS_PENDING]
   \<and> map e_Status (executions (snd (CreateApproval ReadUncommitted (begun_db 2) (decision 1 8 REJECTED))))
     = [EXECUTION_REJECTED]
   \<and> fst (DeleteApprovalFlow (begun_db 2) 1) = None
   \<and> node_executions (flow_deleted_db 2) = node_executions (begun_db 2)
   \<and> executions (flow_deleted_db 2) = executions (begun_db 2)
   \<and> fst (CreateApproval ReadUncommitted (flow_deleted_db 2) (decision 1 8 REJECTED))
     = Inl GetRequiredApprovalsFailed
   \<and> approvals (snd (CreateApproval ReadUncommitted (flow_deleted_db 2) (decision 1 8 REJECTED)))
     = [(decision 1 8 REJECTED)\<lparr>a_ID := 1, a_CreateTime := 100\<rparr>]
   \<and> map ne_Status (node_executions (snd (CreateApproval ReadUncommitted (flow_deleted_db 2) (decision 1 8 REJECTED))))
     = [APPROVAL_NODE_EXECUTION_STATUS_IN_PROGRESS, APPROVAL_NODE_EXECUTION_STATUS_PENDING,
        APPROVAL_NODE_EXECUTION_STATUS_PENDING]
   \<and> map e_Status (executions (snd (CreateApproval ReadUncommitted (flow_deleted_db 2) (decision 1 8 REJECTED))))
     = [EXECUTION_IN_PROGRESS]
   \<and> fst (Check ReadUncommitted
            (snd (CreateApproval ReadUncommitted (flow_deleted_db 2) (decision 1 8 REJECTED))) plan5)
     = Some (RequiresApproval EXECUTION_IN_PROGRESS)
   \<and> CreateApproval ReadCommitted (flow_deleted_db 2) (decision 1 8 REJECTED)
     = CreateApproval ReadUncommitted (flow_deleted_db 2) (decision 1 8 REJECTED)"
  by (simp add: begun_db_def flow_deleted_db_def fresh_db_def plan5_def DeleteApprovalFlow_def
      check_defs run_defs ex_defs)


end
